theory Spec2Isabelle
  imports Complex_Main
begin

section \<open>cloudperf: the EC2 benchmark orchestrator of aws\_helpers.py\<close>

text \<open>
  A shallow embedding of \<^verbatim>\<open>run_benchmarks\<close>, \<^verbatim>\<open>get_ssh_connection\<close>,
  \<^verbatim>\<open>get_benchmarks_to_run\<close> and \<^verbatim>\<open>get_ec2_performance\<close> of
  \<^verbatim>\<open>cloudperf/providers/aws_helpers.py\<close>. The module is Python 3 code (it wraps
  \<^verbatim>\<open>dict.values()\<close> in \<^verbatim>\<open>list(...)\<close> before indexing), so the library calls
  are given their Python 3 behaviour.

  The cloud control plane, the ssh channel and the clock are oracles collected in the record
  \<open>env\<close>; everything the code does to the outside (create requests, sleeps, remote commands,
  terminate calls) is logged in the record \<open>world\<close>, which is threaded through the functions.
  An exception is a value: a function that can raise returns \<open>(exn \<times> world) + ('a \<times> world)\<close>,
  so the world at the moment of the raise is observable.
\<close>

subsection \<open>Data model\<close>

datatype exn =
    ValueError
  | TypeError
  | ClientError string string   \<comment> \<open>botocore ClientError: error code, message\<close>
  | OtherException string       \<comment> \<open>any other subclass of Exception\<close>

text \<open>A row of \<^verbatim>\<open>prices_df\<close> (the \<^verbatim>\<open>instance\<close> tuple of \<^verbatim>\<open>itertuples\<close>).\<close>

record price_row =
  instanceType :: string
  cpu_arch :: string
  vcpu :: int
  price :: real
  spot :: bool

record block_device =
  DeviceName :: string
  Ebs_SnapshotId :: string
  Ebs_Encrypted :: "bool option"   \<comment> \<open>None: the key is not in the dict\<close>

record ami =
  ami_ImageId :: string
  ami_BlockDeviceMappings :: "block_device list"

record spot_options =
  MaxPrice :: real
  SpotInstanceType :: string
  InstanceInterruptionBehavior :: string

text \<open>
  The keyword arguments of \<^verbatim>\<open>ec2.run_instances\<close>. The entries of the constant
  \<^verbatim>\<open>ec2_specs\<close> (key name, security groups, counts, user data, tags) are the same in
  every request and are left out. \<open>InstanceMarketOptions = None\<close> is a dict without that key:
  an on-demand request.
\<close>

record create_specs =
  ImageId :: string
  InstanceType :: string
  BlockDeviceMappings :: "block_device list"
  CreditSpecification :: "string option"
  InstanceMarketOptions :: "(string \<times> spot_options) option"

record ec2_instance =
  InstanceId :: string
  PrivateIpAddress :: string

datatype create_result = Created ec2_instance | Raises exn

text \<open>A sample is what \<^verbatim>\<open>scores\<close> holds: a float, or Python's \<^verbatim>\<open>None\<close>.\<close>

type_synonym sample = "real option"

record bench_data =
  bd_images :: "(string \<times> string) list"     \<comment> \<open>architecture to docker image\<close>
  bd_cmd :: "int \<Rightarrow> string"                  \<comment> \<open>\<^verbatim>\<open>bench_data['cmd'].format(numcpu=i)\<close>\<close>
  bd_cpus :: "int list option"
  bd_iterations :: "int option"
  bd_score_aggregation :: "(sample list \<Rightarrow> exn + sample) option"
  bd_name :: "string option"
  bd_program :: "string option"

record score_row =
  row_instanceType :: string
  benchmark_cpus :: int
  benchmark_score :: sample
  benchmark_id :: string
  benchmark_name :: "string option"
  benchmark_cmd :: string
  benchmark_program :: "string option"
  date :: int                              \<comment> \<open>microseconds since the epoch\<close>

text \<open>
  The oracles. \<open>run_instances k req\<close> is the answer of the control plane to the \<open>k\<close>-th create
  request; \<open>load_pkey\<close> is the exception, if any, of reading the ssh key;
  \<open>exec_command k c\<close> is the outcome of the \<open>k\<close>-th remote command: an exception of the
  channel, or exit status, stdout and stderr; \<open>ssh_connect k\<close> says whether the \<open>k\<close>-th
  connection attempt succeeds and how many seconds it takes; \<open>pyfloat\<close> is Python's
  \<^verbatim>\<open>float(...)\<close>, \<open>None\<close> when it raises; \<open>clock k\<close> is the reading of
  \<^verbatim>\<open>datetime.now()\<close> when the \<open>k\<close>-th result row is built.
\<close>

record env =
  run_instances :: "nat \<Rightarrow> create_specs \<Rightarrow> create_result"
  load_pkey :: "exn option"
  ssh_connect :: "nat \<Rightarrow> bool \<times> nat"
  exec_command :: "nat \<Rightarrow> string \<Rightarrow> exn + (int \<times> string \<times> string)"
  pyfloat :: "string \<Rightarrow> real option"
  clock :: "nat \<Rightarrow> int"

record world =
  run_calls :: "create_specs list"    \<comment> \<open>create requests issued, oldest first\<close>
  sleeps :: "real list"               \<comment> \<open>arguments of \<^verbatim>\<open>time.sleep\<close>, oldest first\<close>
  exec_calls :: "string list"         \<comment> \<open>remote commands issued, oldest first\<close>
  terminated :: "string list"         \<comment> \<open>instance ids passed to \<^verbatim>\<open>terminate_instances\<close>\<close>

definition world0 :: world where
  "world0 = \<lparr>run_calls = [], sleeps = [], exec_calls = [], terminated = []\<rparr>"

type_synonym 'a res = "(exn \<times> world) + ('a \<times> world)"

definition sleep :: "real \<Rightarrow> world \<Rightarrow> world" where
  "sleep d w = w\<lparr>sleeps := sleeps w @ [d]\<rparr>"

subsection \<open>Building the create requests\<close>

definition is_digit :: "char \<Rightarrow> bool" where
  "is_digit c = (c \<in> set ''0123456789'')"

text \<open>\<^verbatim>\<open>re.match('^t[0-9]+\.', s)\<close>: a \<^verbatim>\<open>t\<close>, one or more digits, a dot.\<close>

fun burstable :: "string \<Rightarrow> bool" where
  "burstable [] = False"
| "burstable (c # rest) =
     (c = CHR ''t'' \<and> takeWhile is_digit rest \<noteq> [] \<and>
      (case dropWhile is_digit rest of [] \<Rightarrow> False | d # _ \<Rightarrow> d = CHR ''.''))"

text \<open>\<^verbatim>\<open>del bdmap[0]['Ebs']['Encrypted']\<close>, any exception swallowed.\<close>

fun del_encrypted :: "block_device list \<Rightarrow> block_device list" where
  "del_encrypted [] = []"
| "del_encrypted (b # bs) = b\<lparr>Ebs_Encrypted := None\<rparr> # bs"

definition build_specs :: "ami \<Rightarrow> price_row \<Rightarrow> create_specs" where
  "build_specs a inst =
     \<lparr>ImageId = ami_ImageId a, InstanceType = instanceType inst,
      BlockDeviceMappings = del_encrypted (ami_BlockDeviceMappings a),
      CreditSpecification = (if burstable (instanceType inst) then Some ''unlimited'' else None),
      InstanceMarketOptions = None\<rparr>"

definition build_spotspecs :: "ami \<Rightarrow> price_row \<Rightarrow> create_specs" where
  "build_spotspecs a inst =
     (build_specs a inst)\<lparr>InstanceMarketOptions :=
        Some (''spot'', \<lparr>MaxPrice = price inst, SpotInstanceType = ''one-time'',
                         InstanceInterruptionBehavior = ''terminate''\<rparr>)\<rparr>"

subsection \<open>The provisioning loop of \<^verbatim>\<open>run_benchmarks\<close>\<close>

text \<open>
  One pass through the body of \<^verbatim>\<open>while retcount < 16\<close>. \<open>Continue\<close> carries the new
  \<^verbatim>\<open>create_specs\<close> and \<^verbatim>\<open>retcount\<close>; \<open>Break\<close> leaves the loop with the value of
  \<^verbatim>\<open>ec2_inst\<close>; \<open>Raise\<close> is an exception that leaves \<^verbatim>\<open>run_benchmarks\<close>.
\<close>

datatype loop_ctl =
    Continue create_specs nat world
  | Break "ec2_instance option" world
  | Raise exn world

definition backoff :: "nat \<Rightarrow> real" where
  "backoff retcount = (12 / 10) ^ retcount"

text \<open>
  The \<^verbatim>\<open>except ClientError\<close> handler, by error code. In the \<^verbatim>\<open>Unsupported\<close> branch the
  log message is built with \<^verbatim>\<open>base64.b64encode(str(create_specs))\<close>, which in Python 3
  raises TypeError (a \<^verbatim>\<open>str\<close> is not bytes-like); raised inside the handler, it is not
  caught by the sibling \<^verbatim>\<open>except Exception\<close> and leaves the function.
\<close>

definition on_client_error ::
  "string \<Rightarrow> create_specs \<Rightarrow> create_specs \<Rightarrow> nat \<Rightarrow> world \<Rightarrow> loop_ctl" where
  "on_client_error code specs cspecs retcount w =
     (if code = ''RequestLimitExceeded'' then
        Continue cspecs (retcount + 1) (sleep (backoff retcount) w)
      else if code = ''InsufficientInstanceCapacity'' then Continue specs 0 w
      else if code = ''SpotMaxPriceTooLow'' then Continue specs 0 w
      else if code = ''MissingParameter'' then Break None w
      else if code = ''InvalidParameterValue'' then Break None w
      else if code = ''Unsupported'' then Raise TypeError w
      else Continue cspecs (retcount + 1) (sleep (backoff retcount) w))"

fun on_exception :: "exn \<Rightarrow> create_specs \<Rightarrow> create_specs \<Rightarrow> nat \<Rightarrow> world \<Rightarrow> loop_ctl" where
  "on_exception (ClientError code msg) specs cspecs retcount w =
     on_client_error code specs cspecs retcount w"
| "on_exception e specs cspecs retcount w =
     Continue cspecs (retcount + 1) (sleep (backoff retcount) w)"

definition create_attempt :: "env \<Rightarrow> create_specs \<Rightarrow> create_specs \<Rightarrow> nat \<Rightarrow> world \<Rightarrow> loop_ctl" where
  "create_attempt e specs cspecs retcount w =
     (let w1 = w\<lparr>run_calls := run_calls w @ [cspecs]\<rparr> in
      case run_instances e (length (run_calls w)) cspecs of
        Created inst \<Rightarrow> Break (Some inst) w1
      | Raises x \<Rightarrow> on_exception x specs cspecs retcount w1)"

fun ctl_world :: "loop_ctl \<Rightarrow> world" where
  "ctl_world (Continue cspecs retcount w) = w"
| "ctl_world (Break inst w) = w"
| "ctl_world (Raise x w) = w"

text \<open>
  The loop itself. It need not terminate, so it is a partial function: \<open>None\<close> is a run that
  never leaves the loop.
\<close>

partial_function (option) provision_loop ::
  "env \<Rightarrow> create_specs \<Rightarrow> create_specs \<Rightarrow> nat \<Rightarrow> world \<Rightarrow> (ec2_instance option) res option" where
  "provision_loop e specs cspecs retcount w =
     (if retcount < 16 then
        (case create_attempt e specs cspecs retcount w of
           Continue cspecs' retcount' w' \<Rightarrow> provision_loop e specs cspecs' retcount' w'
         | Break inst w' \<Rightarrow> Some (Inr (inst, w'))
         | Raise x w' \<Rightarrow> Some (Inl (x, w')))
      else Some (Inr (None, w)))"

declare provision_loop.simps [code]

subsection \<open>The remote session\<close>

definition ssh_get_conn_timeout :: nat where
  "ssh_get_conn_timeout = 600"

text \<open>
  \<^verbatim>\<open>get_ssh_connection\<close>: connection attempts until \<^verbatim>\<open>timeout\<close> seconds have passed
  since the start, five seconds of sleep after each failure. \<open>elapsed\<close> is \<^verbatim>\<open>time.time() - start\<close>
  in whole seconds, \<open>k\<close> counts the attempts. The result is \<open>True\<close> for the connected client and
  \<open>False\<close> for \<^verbatim>\<open>None\<close>.
\<close>

function get_ssh_connection :: "env \<Rightarrow> nat \<Rightarrow> nat \<Rightarrow> nat \<Rightarrow> world \<Rightarrow> bool \<times> world" where
  "get_ssh_connection e timeout elapsed k w =
     (if elapsed < timeout then
        (if fst (ssh_connect e k) then (True, w)
         else get_ssh_connection e timeout (elapsed + snd (ssh_connect e k) + 5) (Suc k) (sleep 5 w))
      else (False, w))"
  by pat_completeness auto
termination
  by (relation "measure (\<lambda>(e, timeout, elapsed, k, w). timeout - elapsed)") auto

declare get_ssh_connection.simps [simp del]

text \<open>
  \<^verbatim>\<open>ssh.exec_command(c)\<close> followed by reading the exit status and both streams: the
  command is logged, and an exception of the channel leaves the caller.
\<close>

definition do_exec :: "env \<Rightarrow> string \<Rightarrow> world \<Rightarrow> (int \<times> string \<times> string) res" where
  "do_exec e c w =
     (let w1 = w\<lparr>exec_calls := exec_calls w @ [c]\<rparr> in
      case exec_command e (length (exec_calls w)) c of
        Inl x \<Rightarrow> Inl (x, w1)
      | Inr r \<Rightarrow> Inr (r, w1))"

text \<open>
  The two loops \<^verbatim>\<open>for i in range(4)\<close> (stopping the services, pulling the image): leave at
  the first exit status 0, sleep five seconds after any other; when the tries are used up the
  failure is logged and the run goes on.
\<close>

fun try_cmd :: "env \<Rightarrow> string \<Rightarrow> nat \<Rightarrow> world \<Rightarrow> unit res" where
  "try_cmd e c 0 w = Inr ((), w)"
| "try_cmd e c (Suc n) w =
     (case do_exec e c w of
        Inl xw \<Rightarrow> Inl xw
      | Inr ((ec, stdo, stdrr), w') \<Rightarrow>
          if ec = 0 then Inr ((), w') else try_cmd e c n (sleep 5 w'))"

definition stop_services_cmd :: string where
  "stop_services_cmd =
     ''sudo systemctl | grep running | awk '' @ [CHR 0x27] @ ''{print $1}'' @ [CHR 0x27] @
     '' | egrep -v '' @ [CHR 0x27] @ ''(auditd|dbus|docker|syslog|sshd|systemd|'' @ [CHR 0x5C] @
     ''.scope|network'' @ [CHR 0x5C] @ ''.service)'' @ [CHR 0x27] @ '' | xargs sudo systemctl stop''"

subsection \<open>The benchmark protocol\<close>

text \<open>
  Python 3's \<^verbatim>\<open>max\<close> on a list of samples: ValueError on the empty list; otherwise each
  further item is compared with the running maximum (\<^verbatim>\<open>item > maxval\<close>), and a comparison
  with \<^verbatim>\<open>None\<close> on either side raises TypeError.
\<close>

fun py_max_from :: "sample \<Rightarrow> sample list \<Rightarrow> exn + sample" where
  "py_max_from m [] = Inr m"
| "py_max_from m (x # xs) =
     (case x of
        None \<Rightarrow> Inl TypeError
      | Some a \<Rightarrow>
          (case m of
             None \<Rightarrow> Inl TypeError
           | Some b \<Rightarrow> py_max_from (if a > b then x else m) xs))"

fun py_max :: "sample list \<Rightarrow> exn + sample" where
  "py_max [] = Inl ValueError"
| "py_max (x # xs) = py_max_from x xs"

text \<open>
  The loop \<^verbatim>\<open>for it in range(...)\<close>: \<open>n\<close> runs of the command. Exit status 0 appends
  the parsed float, or \<^verbatim>\<open>None\<close> when \<^verbatim>\<open>float(stdo)\<close> raises; any other exit status is
  logged and appends nothing.
\<close>

fun run_iterations :: "env \<Rightarrow> string \<Rightarrow> nat \<Rightarrow> sample list \<Rightarrow> world \<Rightarrow> (sample list) res" where
  "run_iterations e c 0 scores w = Inr (scores, w)"
| "run_iterations e c (Suc n) scores w =
     (case do_exec e c w of
        Inl xw \<Rightarrow> Inl xw
      | Inr ((ec, stdo, stdrr), w') \<Rightarrow>
          if ec = 0 then
            (case pyfloat e stdo of
               Some v \<Rightarrow> run_iterations e c n (scores @ [Some v]) w'
             | None \<Rightarrow> run_iterations e c n (scores @ [None]) w')
          else run_iterations e c n scores w')"

definition docker_run_cmd :: "string \<Rightarrow> string \<Rightarrow> string" where
  "docker_run_cmd docker_img dcmd = ''docker run --network none --rm '' @ docker_img @ '' '' @ dcmd"

definition docker_pull_cmd :: "string \<Rightarrow> string" where
  "docker_pull_cmd docker_img = ''docker pull '' @ docker_img @ ''; sync; sleep 10''"

text \<open>\<^verbatim>\<open>range(bench_data.get('iterations', 3))\<close>: the number of runs.\<close>

definition iteration_count :: "bench_data \<Rightarrow> nat" where
  "iteration_count bd = nat (case bd_iterations bd of None \<Rightarrow> 3 | Some n \<Rightarrow> n)"

definition aggr_f :: "bench_data \<Rightarrow> sample list \<Rightarrow> exn + sample" where
  "aggr_f bd = (case bd_score_aggregation bd of None \<Rightarrow> py_max | Some f \<Rightarrow> f)"

text \<open>
  The loop \<^verbatim>\<open>for i in cpulist\<close>: the samples of the iterations, the aggregation (an
  exception of the aggregation function leaves \<^verbatim>\<open>run_benchmarks\<close>), one row appended to
  \<^verbatim>\<open>results\<close>.
\<close>

fun run_cpus ::
  "env \<Rightarrow> price_row \<Rightarrow> string \<Rightarrow> bench_data \<Rightarrow> string \<Rightarrow> int list \<Rightarrow> score_row list \<Rightarrow> world
     \<Rightarrow> (score_row list) res" where
  "run_cpus e inst bid bd docker_img [] results w = Inr (results, w)"
| "run_cpus e inst bid bd docker_img (i # cpulist) results w =
     (let c = docker_run_cmd docker_img (bd_cmd bd i) in
      case run_iterations e c (iteration_count bd) [] w of
        Inl xw \<Rightarrow> Inl xw
      | Inr (scores, w') \<Rightarrow>
          (case aggr_f bd scores of
             Inl x \<Rightarrow> Inl (x, w')
           | Inr score \<Rightarrow>
               run_cpus e inst bid bd docker_img cpulist
                 (results @ [\<lparr>row_instanceType = instanceType inst, benchmark_cpus = i,
                               benchmark_score = score, benchmark_id = bid,
                               benchmark_name = bd_name bd, benchmark_cmd = c,
                               benchmark_program = bd_program bd,
                               date = clock e (length results)\<rparr>]) w'))"

text \<open>The sweep: the explicit list when the key is present and not empty, else \<open>1..vcpu\<close>.\<close>

definition cpulist_of :: "price_row \<Rightarrow> bench_data \<Rightarrow> int list" where
  "cpulist_of inst bd =
     (case bd_cpus bd of
        Some l \<Rightarrow> if l \<noteq> [] then l else [1..vcpu inst]
      | None \<Rightarrow> [1..vcpu inst])"

text \<open>
  The loop \<^verbatim>\<open>for name, bench_data in benchmarks_to_run.items()\<close>. A benchmark with no image
  for the architecture (no key, or an empty value) is skipped.
\<close>

fun run_benchs ::
  "env \<Rightarrow> price_row \<Rightarrow> (string \<times> bench_data) list \<Rightarrow> score_row list \<Rightarrow> world
     \<Rightarrow> (score_row list) res" where
  "run_benchs e inst [] results w = Inr (results, w)"
| "run_benchs e inst ((bid, bd) # rest) results w =
     (case map_of (bd_images bd) (cpu_arch inst) of
        None \<Rightarrow> run_benchs e inst rest results w
      | Some docker_img \<Rightarrow>
          if docker_img = [] then run_benchs e inst rest results w
          else
            (case try_cmd e (docker_pull_cmd docker_img) 4 w of
               Inl xw \<Rightarrow> Inl xw
             | Inr (u, w1) \<Rightarrow>
                 (case run_cpus e inst bid bd docker_img (cpulist_of inst bd) results w1 of
                    Inl xw \<Rightarrow> Inl xw
                  | Inr (results', w2) \<Rightarrow> run_benchs e inst rest results' w2)))"

definition terminate_instances :: "string \<Rightarrow> world \<Rightarrow> world" where
  "terminate_instances instance_id w = w\<lparr>terminated := terminated w @ [instance_id]\<rparr>"

text \<open>
  \<^verbatim>\<open>run_benchmarks\<close> after the provisioning loop has produced \<^verbatim>\<open>ec2_inst\<close>. An
  exception of the waiter is logged and swallowed; loading the key can raise. \<open>None\<close> is the
  return value \<^verbatim>\<open>None\<close>, \<open>Some rows\<close> the data frame of the results.
\<close>

definition benchmark_instance ::
  "env \<Rightarrow> price_row \<Rightarrow> (string \<times> bench_data) list \<Rightarrow> ec2_instance \<Rightarrow> world
     \<Rightarrow> (score_row list option) res" where
  "benchmark_instance e inst benchmarks_to_run ec2_inst w =
     (let instance_id = InstanceId ec2_inst;
          w1 = sleep 5 w
      in case load_pkey e of
           Some x \<Rightarrow> Inl (x, w1)
         | None \<Rightarrow>
             (case get_ssh_connection e ssh_get_conn_timeout 0 0 w1 of
                (False, w2) \<Rightarrow> Inr (None, terminate_instances instance_id w2)
              | (True, w2) \<Rightarrow>
                  (case try_cmd e stop_services_cmd 4 (sleep 60 w2) of
                     Inl xw \<Rightarrow> Inl xw
                   | Inr (u, w3) \<Rightarrow>
                       (case run_benchs e inst benchmarks_to_run [] w3 of
                          Inl xw \<Rightarrow> Inl xw
                        | Inr (results, w4) \<Rightarrow>
                            Inr (Some results, terminate_instances instance_id w4)))))"

text \<open>
  \<^verbatim>\<open>run_benchmarks(args)\<close>. \<open>None\<close> (of the outer option) is a run whose provisioning
  loop never ends.
\<close>

definition run_benchmarks ::
  "env \<Rightarrow> ami \<times> price_row \<times> (string \<times> bench_data) list \<Rightarrow> world
     \<Rightarrow> (score_row list option) res option" where
  "run_benchmarks e args w =
     (case args of (a, inst, benchmarks_to_run) \<Rightarrow>
        (case provision_loop e (build_specs a inst) (build_spotspecs a inst) 0 w of
           None \<Rightarrow> None
         | Some (Inl xw) \<Rightarrow> Some (Inl xw)
         | Some (Inr (None, w1)) \<Rightarrow> Some (Inr (None, w1))
         | Some (Inr (Some ec2_inst, w1)) \<Rightarrow>
             Some (benchmark_instance e inst benchmarks_to_run ec2_inst w1)))"

subsection \<open>Freshness of earlier results\<close>

text \<open>
  Dates are microseconds since the epoch. \<^verbatim>\<open>timedelta.seconds\<close> is the seconds field of
  the normalised difference (days, seconds, microseconds with \<open>0 \<le> seconds < 86400\<close>), not
  its length in seconds.
\<close>

definition td_seconds :: "int \<Rightarrow> int" where
  "td_seconds delta = (delta div 1000000) mod 86400"

text \<open>\<^verbatim>\<open>DataFrame.drop_duplicates\<close>: the first row of every key stays, in order.\<close>

fun drop_duplicates :: "('a \<Rightarrow> 'k) \<Rightarrow> 'k list \<Rightarrow> 'a list \<Rightarrow> 'a list" where
  "drop_duplicates key seen [] = []"
| "drop_duplicates key seen (x # xs) =
     (if key x \<in> set seen then drop_duplicates key seen xs
      else x # drop_duplicates key (key x # seen) xs)"

text \<open>\<^verbatim>\<open>d.pop(k, None)\<close> on a dict held as an association list in insertion order.\<close>

definition dict_pop :: "string \<Rightarrow> (string \<times> 'v) list \<Rightarrow> (string \<times> 'v) list" where
  "dict_pop k d = filter (\<lambda>kv. fst kv \<noteq> k) d"

text \<open>
  The rows of \<^verbatim>\<open>perf_df\<close> of the instance type, cut to the columns instance type,
  benchmark id and date, without duplicates.
\<close>

definition perf_rows :: "price_row \<Rightarrow> score_row list \<Rightarrow> (string \<times> string \<times> int) list" where
  "perf_rows inst perf_df =
     drop_duplicates (\<lambda>r. r) []
       (map (\<lambda>r. (row_instanceType r, benchmark_id r, date r))
          (filter (\<lambda>r. row_instanceType r = instanceType inst) perf_df))"

text \<open>
  The loop \<^verbatim>\<open>for idx, row in perf_df.iterrows()\<close> of \<^verbatim>\<open>get_benchmarks_to_run\<close>, on
  the entries of \<^verbatim>\<open>my_benchmarks\<close>. \<open>now\<close> is the reading of \<^verbatim>\<open>datetime.now()\<close>.
\<close>

fun pop_rows :: "int \<Rightarrow> int \<Rightarrow> (string \<times> string \<times> int) list \<Rightarrow> (string \<times> 'v) list \<Rightarrow> (string \<times> 'v) list" where
  "pop_rows now expire [] my_benchmarks = my_benchmarks"
| "pop_rows now expire (row # rows) my_benchmarks =
     (if td_seconds (now - snd (snd row)) \<ge> expire then pop_rows now expire rows my_benchmarks
      else pop_rows now expire rows (dict_pop (fst (snd row)) my_benchmarks))"

text \<open>
  \<^verbatim>\<open>get_benchmarks_to_run\<close> on values: the entries of the mapping it returns. The global
  \<^verbatim>\<open>benchmarks\<close> of \<^verbatim>\<open>cloudperf.benchmarks\<close> is a parameter. (The same function on an
  explicit store, with the copy it makes, is \<open>get_benchmarks_to_run_st\<close> below.)
\<close>

definition get_benchmarks_to_run ::
  "(string \<times> 'v) list \<Rightarrow> int \<Rightarrow> price_row \<Rightarrow> score_row list \<Rightarrow> int \<Rightarrow> (string \<times> 'v) list" where
  "get_benchmarks_to_run benchmarks now inst perf_df expire =
     pop_rows now expire (perf_rows inst perf_df) benchmarks"

subsection \<open>The fleet coordinator\<close>

text \<open>
  The benchmarks chosen for an instance in \<^verbatim>\<open>get_ec2_performance\<close>: those of
  \<^verbatim>\<open>get_benchmarks_to_run\<close> when there is a \<^verbatim>\<open>perf_df\<close> and \<^verbatim>\<open>update\<close> is true, else
  the global \<^verbatim>\<open>benchmarks\<close>.
\<close>

definition select_benchmarks ::
  "(string \<times> bench_data) list \<Rightarrow> int \<Rightarrow> score_row list option \<Rightarrow> bool \<Rightarrow> int \<Rightarrow> price_row
     \<Rightarrow> (string \<times> bench_data) list" where
  "select_benchmarks benchmarks now perf_df update expire inst =
     (case perf_df of
        Some df \<Rightarrow> if update then get_benchmarks_to_run benchmarks now inst df expire else benchmarks
      | None \<Rightarrow> benchmarks)"

text \<open>
  The loop \<^verbatim>\<open>for instance in prices_df.itertuples()\<close> of \<^verbatim>\<open>get_ec2_performance\<close>, which
  fills \<^verbatim>\<open>bench_args\<close>: an instance with no benchmark to run is left out, and so is every
  instance whose type is not in the tuple \<^verbatim>\<open>('t3.xlarge',)\<close>. \<open>latest_ami\<close> is
  \<^verbatim>\<open>aws_get_latest_ami\<close> by architecture.
\<close>

fun collect_bench_args ::
  "(string \<Rightarrow> ami) \<Rightarrow> (string \<times> bench_data) list \<Rightarrow> int \<Rightarrow> score_row list option \<Rightarrow> bool \<Rightarrow> int
     \<Rightarrow> price_row list \<Rightarrow> (ami \<times> price_row \<times> (string \<times> bench_data) list) list" where
  "collect_bench_args latest_ami benchmarks now perf_df update expire [] = []"
| "collect_bench_args latest_ami benchmarks now perf_df update expire (inst # rest) =
     (let benchmarks_to_run = select_benchmarks benchmarks now perf_df update expire inst
      in if benchmarks_to_run = [] then
           collect_bench_args latest_ami benchmarks now perf_df update expire rest
         else if instanceType inst \<notin> set [''t3.xlarge''] then
           collect_bench_args latest_ami benchmarks now perf_df update expire rest
         else (latest_ami (cpu_arch inst), inst, benchmarks_to_run)
                # collect_bench_args latest_ami benchmarks now perf_df update expire rest)"

text \<open>
  \<^verbatim>\<open>bench_args\<close> of \<^verbatim>\<open>get_ec2_performance\<close>: the spot rows are dropped (by index label;
  the frame of \<^verbatim>\<open>get_ec2_prices\<close> has a label of its own for every row), then the
  duplicates by instance type, and the loop runs over what is left.
\<close>

definition bench_args ::
  "(string \<Rightarrow> ami) \<Rightarrow> (string \<times> bench_data) list \<Rightarrow> int \<Rightarrow> price_row list \<Rightarrow> score_row list option
     \<Rightarrow> bool \<Rightarrow> int \<Rightarrow> (ami \<times> price_row \<times> (string \<times> bench_data) list) list" where
  "bench_args latest_ami benchmarks now prices_df perf_df update expire =
     collect_bench_args latest_ami benchmarks now perf_df update expire
       (drop_duplicates instanceType [] (filter (\<lambda>r. \<not> spot r) prices_df))"

text \<open>
  \<^verbatim>\<open>pool.map(run_benchmarks, bench_args)\<close>: the results in the order of the arguments. Every
  pipeline runs in a world of its own. The call returns when all workers have finished, so it
  never returns when one of them never does; when a worker raised, the call raises (which of
  several exceptions is a matter of timing: the model takes the first in the order of the
  arguments).
\<close>

fun pool_map :: "('a \<Rightarrow> (exn + 'b) option) \<Rightarrow> 'a list \<Rightarrow> (exn + 'b list) option" where
  "pool_map f [] = Some (Inr [])"
| "pool_map f (x # xs) =
     (case f x of
        None \<Rightarrow> None
      | Some r \<Rightarrow>
          (case pool_map f xs of
             None \<Rightarrow> None
           | Some rs \<Rightarrow>
               (case r of
                  Inl err \<Rightarrow> Some (Inl err)
                | Inr y \<Rightarrow> (case rs of Inl err \<Rightarrow> Some (Inl err) | Inr ys \<Rightarrow> Some (Inr (y # ys))))))"

text \<open>
  \<^verbatim>\<open>pandas.concat\<close> on a list of frames and \<^verbatim>\<open>None\<close>s, as pandas documents it:
  \<^verbatim>\<open>None\<close> objects are dropped silently unless all of them are \<^verbatim>\<open>None\<close>, in which case
  ValueError is raised (as it is for an empty list).
\<close>

definition pd_concat :: "'r list option list \<Rightarrow> exn + 'r list" where
  "pd_concat objs =
     (case List.map_filter (\<lambda>x. x) objs of
        [] \<Rightarrow> Inl ValueError
      | frames \<Rightarrow> Inr (concat frames))"

text \<open>What the caller of \<^verbatim>\<open>run_benchmarks\<close> sees: the return value, or the exception.\<close>

definition pipeline ::
  "env \<Rightarrow> ami \<times> price_row \<times> (string \<times> bench_data) list \<Rightarrow> (exn + score_row list option) option" where
  "pipeline e args =
     (case run_benchmarks e args world0 of
        None \<Rightarrow> None
      | Some (Inl (x, w)) \<Rightarrow> Some (Inl x)
      | Some (Inr (r, w)) \<Rightarrow> Some (Inr r))"

text \<open>
  \<^verbatim>\<open>get_ec2_performance\<close>. \<open>envs t\<close> is the environment that the pipeline of instance
  type \<open>t\<close> meets. \<open>None\<close> is a call that never returns.
\<close>

definition get_ec2_performance ::
  "(string \<Rightarrow> env) \<Rightarrow> (string \<Rightarrow> ami) \<Rightarrow> (string \<times> bench_data) list \<Rightarrow> int \<Rightarrow> price_row list
     \<Rightarrow> score_row list option \<Rightarrow> bool \<Rightarrow> int \<Rightarrow> (exn + score_row list) option" where
  "get_ec2_performance envs latest_ami benchmarks now prices_df perf_df update expire =
     (let args = bench_args latest_ami benchmarks now prices_df perf_df update expire in
      if args \<noteq> [] then
        (case pool_map (\<lambda>a. pipeline (envs (instanceType (fst (snd a)))) a) args of
           None \<Rightarrow> None
         | Some (Inl x) \<Rightarrow> Some (Inl x)
         | Some (Inr results) \<Rightarrow> Some (pd_concat results))
      else Some (Inr []))"

subsection \<open>\<^verbatim>\<open>get_benchmarks_to_run\<close> on an explicit store\<close>

text \<open>
  Python objects with identity. A value is an atom (a string, a number, a function,
  \<^verbatim>\<open>None\<close>: immutable, and returned as it is by \<^verbatim>\<open>copy.deepcopy\<close>) or a reference to a
  mutable container in the store. The store is the list of all containers; the address of a
  container is its index, and a new container is appended.
\<close>

datatype pyval = PAtom string | PRef nat

datatype pyobj = PDict "(string \<times> pyval) list" | PList "pyval list"

type_synonym store = "pyobj list"

type_synonym memo = "nat \<rightharpoonup> nat"

fun members :: "pyobj \<Rightarrow> pyval list" where
  "members (PDict kvs) = map snd kvs"
| "members (PList vs) = vs"

fun rebuild :: "pyobj \<Rightarrow> pyval list \<Rightarrow> pyobj" where
  "rebuild (PDict kvs) vs = PDict (zip (map fst kvs) vs)"
| "rebuild (PList us) vs = PList vs"

text \<open>
  \<^verbatim>\<open>copy.deepcopy(x, memo)\<close>. An atom is returned as it is. For a container already in
  \<^verbatim>\<open>memo\<close> the earlier copy is returned; otherwise an empty container is created and
  entered in \<^verbatim>\<open>memo\<close>, and the copies of the members are stored into it (keys of a dict are
  atoms here). Python stores each member as soon as it is copied; nothing reads the new
  container before its loop ends, so the model stores them together at the end. The first
  argument bounds the depth of the recursion; \<open>None\<close> is a copy that ran out of it or met an
  address outside the store.
\<close>

fun deepcopy_val :: "nat \<Rightarrow> pyval \<Rightarrow> store \<times> memo \<Rightarrow> (pyval \<times> store \<times> memo) option"
  and deepcopy_vals :: "nat \<Rightarrow> pyval list \<Rightarrow> store \<times> memo \<Rightarrow> (pyval list \<times> store \<times> memo) option" where
  "deepcopy_val n (PAtom a) st = Some (PAtom a, st)"
| "deepcopy_val n (PRef a) (h, m) =
     (case m a of
        Some a' \<Rightarrow> Some (PRef a', (h, m))
      | None \<Rightarrow>
          (case n of
             0 \<Rightarrow> None
           | Suc n' \<Rightarrow>
               if a < length h then
                 (let a' = length h in
                  case deepcopy_vals n' (members (h ! a)) (h @ [rebuild (h ! a) []], m(a \<mapsto> a')) of
                    None \<Rightarrow> None
                  | Some (vs, (h', m')) \<Rightarrow> Some (PRef a', (h'[a' := rebuild (h ! a) vs], m')))
               else None))"
| "deepcopy_vals n [] st = Some ([], st)"
| "deepcopy_vals n (v # vs) st =
     (case deepcopy_val n v st of
        None \<Rightarrow> None
      | Some (v', st') \<Rightarrow>
          (case deepcopy_vals n vs st' of
             None \<Rightarrow> None
           | Some (vs', st'') \<Rightarrow> Some (v' # vs', st'')))"

text \<open>
  \<^verbatim>\<open>copy.deepcopy(x)\<close> with a new \<^verbatim>\<open>memo\<close>. The recursion is never deeper than the
  number of containers of the store.
\<close>

definition deepcopy :: "pyval \<Rightarrow> store \<Rightarrow> (pyval \<times> store) option" where
  "deepcopy v h =
     (case deepcopy_val (length h) v (h, Map.empty) of
        None \<Rightarrow> None
      | Some (v', (h', m)) \<Rightarrow> Some (v', h'))"

text \<open>
  \<^verbatim>\<open>d.pop(k, None)\<close> on the container at address \<open>r\<close>: a dict is changed in place; a list
  has no \<^verbatim>\<open>pop\<close> with two arguments, and the call raises TypeError.
\<close>

definition store_pop :: "nat \<Rightarrow> string \<Rightarrow> store \<Rightarrow> exn + store" where
  "store_pop r k h =
     (case h ! r of
        PDict kvs \<Rightarrow> Inr (h[r := PDict (dict_pop k kvs)])
      | PList vs \<Rightarrow> Inl TypeError)"

text \<open>The loop over the rows, on the store; an exception comes with the store it leaves.\<close>

fun pop_rows_st :: "int \<Rightarrow> int \<Rightarrow> (string \<times> string \<times> int) list \<Rightarrow> nat \<Rightarrow> store \<Rightarrow> (exn \<times> store) + store" where
  "pop_rows_st now expire [] r h = Inr h"
| "pop_rows_st now expire (row # rows) r h =
     (if td_seconds (now - snd (snd row)) \<ge> expire then pop_rows_st now expire rows r h
      else (case store_pop r (fst (snd row)) h of
              Inl x \<Rightarrow> Inl (x, h)
            | Inr h' \<Rightarrow> pop_rows_st now expire rows r h'))"

text \<open>
  \<^verbatim>\<open>get_benchmarks_to_run\<close> with the global \<^verbatim>\<open>benchmarks\<close> at address \<open>g\<close> of the store:
  the address of the mapping it returns and the store after the call, or the exception and
  the store it leaves. \<open>None\<close> is a copy that did not come to an end.
\<close>

definition get_benchmarks_to_run_st ::
  "nat \<Rightarrow> int \<Rightarrow> price_row \<Rightarrow> score_row list \<Rightarrow> int \<Rightarrow> store
     \<Rightarrow> ((exn \<times> store) + (nat \<times> store)) option" where
  "get_benchmarks_to_run_st g now inst perf_df expire h =
     (case deepcopy (PRef g) h of
        None \<Rightarrow> None
      | Some (PAtom a, h') \<Rightarrow> None
      | Some (PRef my_benchmarks, h') \<Rightarrow>
          (case pop_rows_st now expire (perf_rows inst perf_df) my_benchmarks h' of
             Inl xh \<Rightarrow> Some (Inl xh)
           | Inr h'' \<Rightarrow> Some (Inr (my_benchmarks, h''))))"

text \<open>The addresses a value or a container refers to, and reachability in a store.\<close>

fun refs_of :: "pyval list \<Rightarrow> nat list" where
  "refs_of [] = []"
| "refs_of (PAtom a # vs) = refs_of vs"
| "refs_of (PRef a # vs) = a # refs_of vs"

inductive reach :: "store \<Rightarrow> nat \<Rightarrow> nat \<Rightarrow> bool" for h :: store where
  reach_self: "reach h a a"
| reach_step: "reach h a b \<Longrightarrow> b < length h \<Longrightarrow> c \<in> set (refs_of (members (h ! b))) \<Longrightarrow> reach h a c"

text \<open>A store is closed when its containers refer to addresses of the store only.\<close>

definition closed_store :: "store \<Rightarrow> bool" where
  "closed_store h = list_all (\<lambda>ob. list_all (\<lambda>a. a < length h) (refs_of (members ob))) h"

subsection \<open>Observations used in the statements\<close>

text \<open>The value and the world of a result.\<close>

fun res_value :: "'a res \<Rightarrow> 'a option" where
  "res_value (Inl xw) = None"
| "res_value (Inr vw) = Some (fst vw)"

fun res_world :: "'a res \<Rightarrow> world" where
  "res_world (Inl xw) = snd xw"
| "res_world (Inr vw) = snd vw"

text \<open>
  When the channel never raises, the oracle is \<open>\<lambda>k c. Inr (out k c)\<close>. \<open>outcomes out c k n\<close>
  are the outcomes of \<open>n\<close> runs of the command \<open>c\<close>, the first of them being remote command
  number \<open>k\<close>; \<open>sweep_outcomes\<close> are the outcomes of a whole sweep, one block for each cpu count.
\<close>

definition outcomes :: "(nat \<Rightarrow> string \<Rightarrow> int \<times> string \<times> string) \<Rightarrow> string \<Rightarrow> nat \<Rightarrow> nat
    \<Rightarrow> (int \<times> string \<times> string) list" where
  "outcomes out c k n = map (\<lambda>j. out (k + j) c) [0..<n]"

fun sweep_outcomes :: "(nat \<Rightarrow> string \<Rightarrow> int \<times> string \<times> string) \<Rightarrow> string \<Rightarrow> bench_data \<Rightarrow> nat
    \<Rightarrow> int list \<Rightarrow> (int \<times> string \<times> string) list list" where
  "sweep_outcomes out docker_img bd k [] = []"
| "sweep_outcomes out docker_img bd k (i # cpulist) =
     outcomes out (docker_run_cmd docker_img (bd_cmd bd i)) k (iteration_count bd)
       # sweep_outcomes out docker_img bd (k + iteration_count bd) cpulist"

text \<open>
  The samples that a list of outcomes stands for: the outcomes with exit status 0, each with
  the float its stdout parses to, or \<open>None\<close> when it does not parse.
\<close>

definition samples_of :: "env \<Rightarrow> (int \<times> string \<times> string) list \<Rightarrow> sample list" where
  "samples_of e rs = map (\<lambda>r. pyfloat e (fst (snd r))) (filter (\<lambda>r. fst r = 0) rs)"

definition zero_exits :: "(int \<times> string \<times> string) list \<Rightarrow> nat" where
  "zero_exits rs = length (filter (\<lambda>r. fst r = 0) rs)"

text \<open>
  The aggregation function of a benchmark returns (it does not raise) on the samples of
  every block of outcomes.
\<close>

definition aggregation_returns :: "env \<Rightarrow> bench_data \<Rightarrow> (int \<times> string \<times> string) list list \<Rightarrow> bool" where
  "aggregation_returns e bd blocks =
     list_all (\<lambda>rs. case aggr_f bd (samples_of e rs) of Inl x \<Rightarrow> False | Inr s \<Rightarrow> True) blocks"

text \<open>The row appended for cpu count \<open>i\<close> with score \<open>s\<close>, as the \<open>k\<close>-th row of the results.\<close>

definition result_row :: "env \<Rightarrow> price_row \<Rightarrow> string \<Rightarrow> bench_data \<Rightarrow> string \<Rightarrow> int \<Rightarrow> sample \<Rightarrow> nat \<Rightarrow> score_row" where
  "result_row e inst bid bd docker_img i s k =
     \<lparr>row_instanceType = instanceType inst, benchmark_cpus = i, benchmark_score = s,
      benchmark_id = bid, benchmark_name = bd_name bd,
      benchmark_cmd = docker_run_cmd docker_img (bd_cmd bd i),
      benchmark_program = bd_program bd, date = clock e k\<rparr>"

subsection \<open>Invariants of the copy\<close>

text \<open>
  \<open>val_below n v\<close>: the value \<open>v\<close> is an atom or refers to an address below \<open>n\<close>.
  \<open>val_new n l v\<close>: it is an atom or refers to an address from \<open>n\<close> up to, not including, \<open>l\<close>.
\<close>

fun val_below :: "nat \<Rightarrow> pyval \<Rightarrow> bool" where
  "val_below n (PAtom a) = True"
| "val_below n (PRef a) = (a < n)"

fun val_new :: "nat \<Rightarrow> nat \<Rightarrow> pyval \<Rightarrow> bool" where
  "val_new n l (PAtom a) = True"
| "val_new n l (PRef a) = (n \<le> a \<and> a < l)"

text \<open>
  The state of a copy of a store \<open>h0\<close>: the containers of \<open>h0\<close> are where they were and as they
  were; every copy entered in the memo is a container above them; and the containers above
  them refer to containers above them only.
\<close>

definition copy_inv :: "store \<Rightarrow> store \<Rightarrow> memo \<Rightarrow> bool" where
  "copy_inv h0 h m =
     (take (length h0) h = h0 \<and> length h0 \<le> length h \<and>
      (\<forall>a a'. m a = Some a' \<longrightarrow> length h0 \<le> a' \<and> a' < length h) \<and>
      (\<forall>b. length h0 \<le> b \<and> b < length h \<longrightarrow>
           list_all (val_new (length h0) (length h)) (members (h ! b))))"

subsection \<open>Concrete inputs\<close>

definition ami0 :: ami where
  "ami0 = \<lparr>ami_ImageId = ''ami-1'',
            ami_BlockDeviceMappings =
              [\<lparr>DeviceName = ''/dev/xvda'', Ebs_SnapshotId = ''snap-1'', Ebs_Encrypted = Some False\<rparr>]\<rparr>"

definition t3_xlarge :: price_row where
  "t3_xlarge = \<lparr>instanceType = ''t3.xlarge'', cpu_arch = ''x86_64'', vcpu = 4, price = 1 / 10,
                  spot = False\<rparr>"

text \<open>
  An environment in which everything works: the instance is created at once, the first ssh
  attempt connects, every remote command exits with 0 and prints \<^verbatim>\<open>1.5\<close>.
\<close>

definition env_ok :: env where
  "env_ok =
     \<lparr>run_instances = (\<lambda>k req. Created \<lparr>InstanceId = ''i-1'', PrivateIpAddress = ''10.0.0.1''\<rparr>),
      load_pkey = None, ssh_connect = (\<lambda>k. (True, 1)),
      exec_command = (\<lambda>k c. Inr (0, ''1.5'', [])),
      pyfloat = (\<lambda>s. if s = ''1.5'' then Some (3 / 2) else None), clock = (\<lambda>k. 0)\<rparr>"

text \<open>Every create request is answered with a ClientError of the given code.\<close>

definition env_error :: "string \<Rightarrow> env" where
  "env_error code = env_ok\<lparr>run_instances := (\<lambda>k req. Raises (ClientError code []))\<rparr>"

text \<open>Spot requests meet no capacity, on-demand requests succeed.\<close>

definition env_spot_capacity :: env where
  "env_spot_capacity =
     env_ok\<lparr>run_instances := (\<lambda>k req.
        if InstanceMarketOptions req = None
        then Created \<lparr>InstanceId = ''i-1'', PrivateIpAddress = ''10.0.0.1''\<rparr>
        else Raises (ClientError ''InsufficientInstanceCapacity'' ''no spot capacity''))\<rparr>"

definition always_capacity_error :: "env \<Rightarrow> bool" where
  "always_capacity_error e =
     (\<forall>k req. \<exists>msg. run_instances e k req = Raises (ClientError ''InsufficientInstanceCapacity'' msg))"

text \<open>An instance type with 8 vcpus.\<close>

definition m5_2xlarge :: price_row where
  "m5_2xlarge = \<lparr>instanceType = ''m5.2xlarge'', cpu_arch = ''x86_64'', vcpu = 8, price = 4 / 10,
                   spot = False\<rparr>"

text \<open>A benchmark with the defaults: sweep \<open>1..vcpu\<close>, three iterations, \<^verbatim>\<open>max\<close>.\<close>

definition bench_a :: bench_data where
  "bench_a = \<lparr>bd_images = [(''x86_64'', ''img'')], bd_cmd = (\<lambda>i. ''bench''), bd_cpus = None,
               bd_iterations = None, bd_score_aggregation = None, bd_name = Some ''A'',
               bd_program = None\<rparr>"

text \<open>
  A benchmark with \<^verbatim>\<open>cpus=[1,4]\<close>, \<^verbatim>\<open>iterations=2\<close> and \<^verbatim>\<open>len\<close> as its aggregation function, so
  that the score of a row is the number of samples that were aggregated.
\<close>

definition bench_count :: bench_data where
  "bench_count = \<lparr>bd_images = [(''x86_64'', ''img'')], bd_cmd = (\<lambda>i. ''bench''),
                   bd_cpus = Some [1, 4], bd_iterations = Some 2,
                   bd_score_aggregation = Some (\<lambda>xs. Inr (Some (real (length xs)))),
                   bd_name = Some ''count'', bd_program = None\<rparr>"

text \<open>
  The benchmark of the example in the specification: \<^verbatim>\<open>cpus=[1,4]\<close>, \<^verbatim>\<open>iterations=2\<close>,
  and the default aggregation \<^verbatim>\<open>max\<close>.
\<close>

definition bench_sweep :: bench_data where
  "bench_sweep = \<lparr>bd_images = [(''x86_64'', ''img'')], bd_cmd = (\<lambda>i. ''bench''),
                   bd_cpus = Some [1, 4], bd_iterations = Some 2,
                   bd_score_aggregation = None, bd_name = Some ''sweep'', bd_program = None\<rparr>"

text \<open>A benchmark whose aggregation function returns the first sample (\<^verbatim>\<open>lambda s: s[0]\<close>).\<close>

definition bench_first :: bench_data where
  "bench_first = \<lparr>bd_images = [(''x86_64'', ''img'')], bd_cmd = (\<lambda>i. ''bench''),
                   bd_cpus = Some [2], bd_iterations = None,
                   bd_score_aggregation =
                     Some (\<lambda>xs. case xs of [] \<Rightarrow> Inl (OtherException ''IndexError'') | x # _ \<Rightarrow> Inr x),
                   bd_name = Some ''first'', bd_program = None\<rparr>"

text \<open>Every command exits with 0, but each \<^verbatim>\<open>docker run\<close> exits with 1.\<close>

definition env_runs_fail :: env where
  "env_runs_fail =
     env_ok\<lparr>exec_command := (\<lambda>k c. if take 10 c = ''docker run'' then Inr (1, [], ''failed'')
                                     else Inr (0, [], []))\<rparr>"

text \<open>The first remote command exits with 1, the others with 0 printing \<^verbatim>\<open>1.5\<close>.\<close>

definition env_first_fails :: env where
  "env_first_fails =
     env_ok\<lparr>exec_command := (\<lambda>k c. if k = 0 then Inr (1, [], ''failed'') else Inr (0, ''1.5'', []))\<rparr>"

text \<open>
  The first remote command exits with 1, the second with 0 printing text that is no number,
  the others with 0 printing \<^verbatim>\<open>1.5\<close>.
\<close>

definition out_mixed :: "nat \<Rightarrow> string \<Rightarrow> int \<times> string \<times> string" where
  "out_mixed k c = (if k = 0 then (1, [], ''failed'') else if k = 1 then (0, ''n/a'', [])
                    else (0, ''1.5'', []))"

definition env_mixed :: env where
  "env_mixed = env_ok\<lparr>exec_command := (\<lambda>k c. Inr (out_mixed k c))\<rparr>"

text \<open>Offers and an earlier result for the coordinator.\<close>

definition c5_large :: price_row where
  "c5_large = \<lparr>instanceType = ''c5.large'', cpu_arch = ''x86_64'', vcpu = 2, price = 85 / 1000,
                 spot = False\<rparr>"

definition now0 :: int where
  "now0 = 200000000000"

text \<open>A result of \<open>bench-A\<close> on the given instance type, \<open>age\<close> microseconds before \<open>now0\<close>.\<close>

definition result_aged :: "string \<Rightarrow> int \<Rightarrow> score_row" where
  "result_aged t age =
     \<lparr>row_instanceType = t, benchmark_cpus = 1, benchmark_score = Some 1, benchmark_id = ''bench-A'',
      benchmark_name = Some ''A'', benchmark_cmd = ''docker run --network none --rm img bench'',
      benchmark_program = None, date = now0 - age\<rparr>"

text \<open>
  Offers: a spot offer of t3.xlarge, an on-demand offer of c5.large and two on-demand offers
  of t3.xlarge.
\<close>

definition offers0 :: "price_row list" where
  "offers0 = [t3_xlarge\<lparr>spot := True, price := 3 / 100\<rparr>, c5_large, t3_xlarge,
              t3_xlarge\<lparr>price := 2 / 10\<rparr>]"

text \<open>
  A store with the global \<^verbatim>\<open>benchmarks\<close> at address 0: two benchmarks that share the dict
  of their images, the second with a list of cpu counts.
\<close>

definition store0 :: store where
  "store0 =
     [PDict [(''bench-A'', PRef 1), (''bench-B'', PRef 3)],
      PDict [(''images'', PRef 2), (''cmd'', PAtom ''bench'')],
      PDict [(''x86_64'', PAtom ''img'')],
      PDict [(''images'', PRef 2), (''cpus'', PRef 4)],
      PList [PAtom ''1'', PAtom ''4'']]"

section \<open>Properties\<close>

subsection \<open>Provisioning\<close>

lemma on_exception_run_calls:
  "run_calls (ctl_world (on_exception x specs cspecs retcount w)) = run_calls w"
  by (cases x) (simp_all add: on_client_error_def sleep_def)

lemma create_attempt_run_calls:
  "run_calls (ctl_world (create_attempt e specs cspecs retcount w)) = run_calls w @ [cspecs]"
  by (cases "run_instances e (length (run_calls w)) cspecs")
     (simp_all add: create_attempt_def on_exception_run_calls)

text \<open>
  A missing parameter or an invalid parameter value ends the provisioning at once: one more
  create request, no sleep, no instance.
\<close>

lemma permanent_error_fails_once:
  assumes "retcount < 16"
    and "run_instances e (length (run_calls w)) cspecs = Raises (ClientError code msg)"
    and "code = ''MissingParameter'' \<or> code = ''InvalidParameterValue''"
  shows "provision_loop e specs cspecs retcount w =
           Some (Inr (None, w\<lparr>run_calls := run_calls w @ [cspecs]\<rparr>))"
  using assms by (subst provision_loop.simps) (auto simp: create_attempt_def on_client_error_def)

text \<open>
  C4. A create attempt that fails as permanently invalid should end the provisioning in Failed
  (no instance is returned) after that one attempt, with no retry and no backoff sleep. For
  the code \<^verbatim>\<open>Unsupported\<close> the run makes the one attempt and sleeps nowhere, but it does
  not return: building the log message raises TypeError, which leaves \<^verbatim>\<open>run_benchmarks\<close>.
\<close>

theorem unsupported_raises_type_error:
  "run_benchmarks (env_error ''Unsupported'') (ami0, t3_xlarge, bs) world0 =
     Some (Inl (TypeError, world0\<lparr>run_calls := [build_spotspecs ami0 t3_xlarge]\<rparr>))"
  by (simp add: run_benchmarks_def provision_loop.simps create_attempt_def on_client_error_def
      env_error_def env_ok_def world0_def)

text \<open>
  C5. When a create attempt fails with InsufficientInstanceCapacity or SpotMaxPriceTooLow, the
  loop goes on with the on-demand request (the one without market options) and with the
  attempt counter at 0, and the next create request it issues is that on-demand request.
\<close>

theorem spot_failure_falls_back_to_on_demand:
  assumes "retcount < 16"
    and "run_instances e (length (run_calls w)) cspecs = Raises (ClientError code msg)"
    and "code = ''InsufficientInstanceCapacity'' \<or> code = ''SpotMaxPriceTooLow''"
  shows "create_attempt e (build_specs a inst) cspecs retcount w =
           Continue (build_specs a inst) 0 (w\<lparr>run_calls := run_calls w @ [cspecs]\<rparr>) \<and>
         InstanceMarketOptions (build_specs a inst) = None \<and>
         provision_loop e (build_specs a inst) cspecs retcount w =
           provision_loop e (build_specs a inst) (build_specs a inst) 0
             (w\<lparr>run_calls := run_calls w @ [cspecs]\<rparr>) \<and>
         run_calls (ctl_world (create_attempt e (build_specs a inst) (build_specs a inst) 0
                      (w\<lparr>run_calls := run_calls w @ [cspecs]\<rparr>))) =
           run_calls w @ [cspecs, build_specs a inst]"
proof -
  have step: "create_attempt e (build_specs a inst) cspecs retcount w =
           Continue (build_specs a inst) 0 (w\<lparr>run_calls := run_calls w @ [cspecs]\<rparr>)"
    using assms(2,3) by (auto simp: create_attempt_def on_client_error_def)
  have loop: "provision_loop e (build_specs a inst) cspecs retcount w =
           provision_loop e (build_specs a inst) (build_specs a inst) 0
             (w\<lparr>run_calls := run_calls w @ [cspecs]\<rparr>)"
    using assms(1) step by (subst provision_loop.simps) simp
  show ?thesis
    using step loop by (simp add: create_attempt_run_calls) (simp add: build_specs_def)
qed

theorem spot_failure_falls_back_to_on_demand_witness:
  "create_attempt env_spot_capacity (build_specs ami0 t3_xlarge) (build_spotspecs ami0 t3_xlarge)
      0 world0 =
      Continue (build_specs ami0 t3_xlarge) 0 (world0\<lparr>run_calls := [build_spotspecs ami0 t3_xlarge]\<rparr>) \<and>
   provision_loop env_spot_capacity (build_specs ami0 t3_xlarge) (build_spotspecs ami0 t3_xlarge)
      0 world0 =
      Some (Inr (Some \<lparr>InstanceId = ''i-1'', PrivateIpAddress = ''10.0.0.1''\<rparr>,
                 world0\<lparr>run_calls := [build_spotspecs ami0 t3_xlarge, build_specs ami0 t3_xlarge]\<rparr>))"
proof -
  have h: "run_instances env_spot_capacity (length (run_calls world0)) (build_spotspecs ami0 t3_xlarge) =
      Raises (ClientError ''InsufficientInstanceCapacity'' ''no spot capacity'')"
    by (simp add: env_spot_capacity_def build_spotspecs_def)
  have r: "provision_loop env_spot_capacity (build_specs ami0 t3_xlarge) (build_specs ami0 t3_xlarge) 0
      (world0\<lparr>run_calls := run_calls world0 @ [build_spotspecs ami0 t3_xlarge]\<rparr>) =
      Some (Inr (Some \<lparr>InstanceId = ''i-1'', PrivateIpAddress = ''10.0.0.1''\<rparr>,
                 world0\<lparr>run_calls := [build_spotspecs ami0 t3_xlarge, build_specs ami0 t3_xlarge]\<rparr>))"
    by (subst provision_loop.simps)
       (simp add: create_attempt_def env_spot_capacity_def build_specs_def world0_def)
  from spot_failure_falls_back_to_on_demand
         [of 0 env_spot_capacity world0 "build_spotspecs ami0 t3_xlarge" _ _ ami0 t3_xlarge, OF _ h]
  show ?thesis using r by (simp add: world0_def)
qed

text \<open>
  When every create request is answered with InsufficientInstanceCapacity, each pass through
  the loop sets the counter back to 0, whatever the request was, and no pass leaves the loop.
\<close>

lemma capacity_error_step:
  assumes "always_capacity_error e"
  shows "create_attempt e specs cspecs retcount w =
           Continue specs 0 (w\<lparr>run_calls := run_calls w @ [cspecs]\<rparr>)"
proof -
  obtain msg where "run_instances e (length (run_calls w)) cspecs =
      Raises (ClientError ''InsufficientInstanceCapacity'' msg)"
    using assms unfolding always_capacity_error_def by blast
  then show ?thesis by (simp add: create_attempt_def on_client_error_def)
qed

lemma capacity_error_never_returns:
  assumes "provision_loop e specs cspecs retcount w = Some y"
  shows "\<not> (always_capacity_error e \<and> retcount < 16)"
  using assms
proof (rule provision_loop.raw_induct
         [rotated 1, where P = "\<lambda>e specs cspecs retcount w y. \<not> (always_capacity_error e \<and> retcount < 16)"])
  fix loop e specs cspecs retcount w y
  assume ih: "\<And>e specs cspecs retcount w y.
        loop e specs cspecs retcount w = Some y \<Longrightarrow> \<not> (always_capacity_error e \<and> retcount < 16)"
    and eq: "(if retcount < 16
        then case create_attempt e specs cspecs retcount w of
             Continue cspecs' retcount' w' \<Rightarrow> loop e specs cspecs' retcount' w'
             | Break inst w' \<Rightarrow> Some (Inr (inst, w'))
             | Raise x w' \<Rightarrow> Some (Inl (x, w'))
        else Some (Inr (None, w))) = Some y"
  show "\<not> (always_capacity_error e \<and> retcount < 16)"
  proof
    assume a: "always_capacity_error e \<and> retcount < 16"
    with eq have "loop e specs specs 0 (w\<lparr>run_calls := run_calls w @ [cspecs]\<rparr>) = Some y"
      by (simp add: capacity_error_step)
    from ih[OF this] a show False by simp
  qed
qed

text \<open>
  Rate-limit errors alone are bounded: from counter 0 the loop gives up after 16 requests,
  having slept \<open>1.2 ^ k\<close> seconds after the \<open>k\<close>-th.
\<close>

lemma rate_limited_gives_up:
  assumes "\<forall>k req. \<exists>msg. run_instances e k req = Raises (ClientError ''RequestLimitExceeded'' msg)"
  shows "n + retcount = 16 \<Longrightarrow> provision_loop e specs cspecs retcount w =
     Some (Inr (None, w\<lparr>run_calls := run_calls w @ replicate n cspecs,
                         sleeps := sleeps w @ map backoff [retcount..<16]\<rparr>))"
proof (induction n arbitrary: retcount w)
  case 0
  then show ?case by (subst provision_loop.simps) simp
next
  case (Suc n)
  obtain msg where m: "run_instances e (length (run_calls w)) cspecs =
      Raises (ClientError ''RequestLimitExceeded'' msg)"
    using assms by blast
  have lt: "retcount < 16" using Suc.prems by simp
  have step: "create_attempt e specs cspecs retcount w =
      Continue cspecs (Suc retcount) (sleep (backoff retcount) (w\<lparr>run_calls := run_calls w @ [cspecs]\<rparr>))"
    using m by (simp add: create_attempt_def on_client_error_def)
  have "provision_loop e specs cspecs retcount w =
      provision_loop e specs cspecs (Suc retcount)
        (sleep (backoff retcount) (w\<lparr>run_calls := run_calls w @ [cspecs]\<rparr>))"
    using lt step by (subst provision_loop.simps) simp
  also have "\<dots> = Some (Inr (None, w\<lparr>run_calls := run_calls w @ replicate (Suc n) cspecs,
                         sleeps := sleeps w @ map backoff [retcount..<16]\<rparr>))"
    using Suc.prems lt by (subst Suc.IH) (auto simp: sleep_def upt_conv_Cons replicate_append_same)
  finally show ?case .
qed

text \<open>
  C6. The provisioning loop should end for every sequence of provider errors. It does not
  when every create request, spot or on-demand, is answered with InsufficientInstanceCapacity:
  the counter is set back to 0 after each of them and \<^verbatim>\<open>run_benchmarks\<close> never returns.
\<close>

theorem capacity_errors_loop_forever:
  "run_benchmarks (env_error ''InsufficientInstanceCapacity'') (a, inst, bs) w = None"
proof -
  have "always_capacity_error (env_error ''InsufficientInstanceCapacity'')"
    by (simp add: always_capacity_error_def env_error_def)
  then have "provision_loop (env_error ''InsufficientInstanceCapacity'') (build_specs a inst)
      (build_spotspecs a inst) 0 w = None"
    using capacity_error_never_returns
      [of "env_error ''InsufficientInstanceCapacity''" "build_specs a inst" "build_spotspecs a inst" 0 w]
    by (cases "provision_loop (env_error ''InsufficientInstanceCapacity'') (build_specs a inst)
                 (build_spotspecs a inst) 0 w") auto
  then show ?thesis by (simp add: run_benchmarks_def)
qed

subsection \<open>The benchmark protocol\<close>

lemma do_exec_ok:
  assumes "exec_command e = (\<lambda>k c. Inr (out k c))"
  shows "do_exec e c w = Inr (out (length (exec_calls w)) c, w\<lparr>exec_calls := exec_calls w @ [c]\<rparr>)"
  using assms by (simp add: do_exec_def)

lemma outcomes_Suc:
  "outcomes out c k (Suc n) = out k c # outcomes out c (Suc k) n"
proof -
  have "[0..<Suc n] = 0 # map Suc [0..<n]"
    by (simp add: upt_conv_Cons map_Suc_upt del: upt_Suc)
  then show ?thesis by (simp add: outcomes_def comp_def del: upt_Suc)
qed

lemma run_iterations_samples:
  assumes "exec_command e = (\<lambda>k c. Inr (out k c))"
  shows "run_iterations e c n scores w =
           Inr (scores @ samples_of e (outcomes out c (length (exec_calls w)) n),
                w\<lparr>exec_calls := exec_calls w @ replicate n c\<rparr>)"
proof (induction n arbitrary: scores w)
  case 0
  show ?case by (simp add: outcomes_def samples_of_def)
next
  case (Suc n)
  obtain ec stdo stdrr where o: "out (length (exec_calls w)) c = (ec, stdo, stdrr)"
    by (cases "out (length (exec_calls w)) c") auto
  show ?case
    by (cases "pyfloat e stdo")
       (simp_all add: do_exec_ok[OF assms] o Suc.IH outcomes_Suc samples_of_def replicate_append_same)
qed

lemma run_cpus_step:
  assumes "exec_command e = (\<lambda>k c. Inr (out k c))"
    and "aggr_f bd (samples_of e (outcomes out (docker_run_cmd docker_img (bd_cmd bd i))
                                   (length (exec_calls w)) (iteration_count bd))) = Inr s"
  shows "run_cpus e inst bid bd docker_img (i # cpulist) results w =
           run_cpus e inst bid bd docker_img cpulist
             (results @ [result_row e inst bid bd docker_img i s (length results)])
             (w\<lparr>exec_calls := exec_calls w @
                  replicate (iteration_count bd) (docker_run_cmd docker_img (bd_cmd bd i))\<rparr>)"
  using assms(2) by (simp add: run_iterations_samples[OF assms(1)] result_row_def Let_def)

lemma sweep_rows:
  assumes ch: "exec_command e = (\<lambda>k c. Inr (out k c))"
  shows "aggregation_returns e bd (sweep_outcomes out docker_img bd (length (exec_calls w)) cpulist) \<Longrightarrow>
         \<exists>rows w'. run_cpus e inst bid bd docker_img cpulist results w = Inr (results @ rows, w') \<and>
           map benchmark_cpus rows = cpulist \<and>
           map (\<lambda>r. Inr (benchmark_score r)) rows =
             map (\<lambda>rs. aggr_f bd (samples_of e rs))
               (sweep_outcomes out docker_img bd (length (exec_calls w)) cpulist) \<and>
           exec_calls w' = exec_calls w @
             concat (map (\<lambda>i. replicate (iteration_count bd) (docker_run_cmd docker_img (bd_cmd bd i)))
                       cpulist)"
proof (induction cpulist arbitrary: results w)
  case Nil
  show ?case by simp
next
  case (Cons i cpulist)
  let ?c = "docker_run_cmd docker_img (bd_cmd bd i)"
  let ?rs = "outcomes out ?c (length (exec_calls w)) (iteration_count bd)"
  let ?w1 = "w\<lparr>exec_calls := exec_calls w @ replicate (iteration_count bd) ?c\<rparr>"
  from Cons.prems obtain s where s: "aggr_f bd (samples_of e ?rs) = Inr s"
    by (auto simp: aggregation_returns_def split: sum.splits)
  let ?row = "result_row e inst bid bd docker_img i s (length results)"
  have step: "run_cpus e inst bid bd docker_img (i # cpulist) results w =
      run_cpus e inst bid bd docker_img cpulist (results @ [?row]) ?w1"
    by (rule run_cpus_step[OF ch s])
  have rest: "aggregation_returns e bd
      (sweep_outcomes out docker_img bd (length (exec_calls ?w1)) cpulist)"
    using Cons.prems by (simp add: aggregation_returns_def)
  from Cons.IH[OF rest, of "results @ [?row]"]
  obtain rows w' where r: "run_cpus e inst bid bd docker_img cpulist (results @ [?row]) ?w1 =
        Inr ((results @ [?row]) @ rows, w')"
    and c: "map benchmark_cpus rows = cpulist"
    and sc: "map (\<lambda>r. Inr (benchmark_score r)) rows =
             map (\<lambda>rs. aggr_f bd (samples_of e rs))
               (sweep_outcomes out docker_img bd (length (exec_calls ?w1)) cpulist)"
    and l: "exec_calls w' = exec_calls ?w1 @
             concat (map (\<lambda>i. replicate (iteration_count bd) (docker_run_cmd docker_img (bd_cmd bd i)))
                       cpulist)"
    by blast
  have f1: "run_cpus e inst bid bd docker_img (i # cpulist) results w = Inr (results @ (?row # rows), w')"
    using step r by simp
  have f2: "map benchmark_cpus (?row # rows) = i # cpulist"
    using c by (simp add: result_row_def)
  have f3: "map (\<lambda>r. Inr (benchmark_score r)) (?row # rows) =
      map (\<lambda>rs. aggr_f bd (samples_of e rs))
        (sweep_outcomes out docker_img bd (length (exec_calls w)) (i # cpulist))"
    using sc s by (simp add: result_row_def)
  have f4: "exec_calls w' = exec_calls w @
             concat (map (\<lambda>i. replicate (iteration_count bd) (docker_run_cmd docker_img (bd_cmd bd i)))
                       (i # cpulist))"
    using l by simp
  show ?case
    by (rule exI[of _ "?row # rows"], rule exI[of _ w']) (use f1 f2 f3 f4 in blast)
qed

lemma sweep_outcomes_lengths:
  "map length (sweep_outcomes out docker_img bd k cpulist) = replicate (length cpulist) (iteration_count bd)"
  by (induction cpulist arbitrary: k) (simp_all add: outcomes_def)

lemma length_samples_of: "length (samples_of e rs) = zero_exits rs"
  by (simp add: samples_of_def zero_exits_def)


lemma terminated_sleep: "terminated (sleep d w) = terminated w"
  by (simp add: sleep_def)

lemma terminated_Inl: "r = Inl (x, w') \<Longrightarrow> terminated (res_world r) = t \<Longrightarrow> terminated w' = t"
  by simp

lemma terminated_Inr: "r = Inr (v, w') \<Longrightarrow> terminated (res_world r) = t \<Longrightarrow> terminated w' = t"
  by simp

lemma do_exec_terminated: "terminated (res_world (do_exec e c w)) = terminated w"
  by (simp add: do_exec_def Let_def split: sum.splits)

lemma try_cmd_terminated: "terminated (res_world (try_cmd e c n w)) = terminated w"
proof (induction n arbitrary: w)
  case 0
  show ?case by simp
next
  case (Suc n)
  show ?case
    using do_exec_terminated[of e c w]
    by (auto simp: sleep_def Suc.IH split: sum.splits)
qed

lemma run_iterations_terminated:
  "terminated (res_world (run_iterations e c n scores w)) = terminated w"
proof (induction n arbitrary: scores w)
  case 0
  show ?case by simp
next
  case (Suc n)
  show ?case
    using do_exec_terminated[of e c w]
    by (auto simp: Suc.IH split: sum.splits option.splits)
qed

lemma run_cpus_terminated:
  "terminated (res_world (run_cpus e inst bid bd docker_img cpulist results w)) = terminated w"
proof (induction cpulist arbitrary: results w)
  case Nil
  show ?case by simp
next
  case (Cons i cpulist)
  show ?case
    using run_iterations_terminated[of e "docker_run_cmd docker_img (bd_cmd bd i)" "iteration_count bd" "[]" w]
    by (auto simp: Cons.IH Let_def split: sum.splits)
qed

lemma run_benchs_terminated:
  "terminated (res_world (run_benchs e inst bs results w)) = terminated w"
proof (induction bs arbitrary: results w)
  case Nil
  show ?case by simp
next
  case (Cons b bs)
  obtain bid bd where b: "b = (bid, bd)" by (cases b)
  show ?case
  proof (cases "map_of (bd_images bd) (cpu_arch inst)")
    case None
    then show ?thesis by (simp add: b Cons.IH)
  next
    case (Some docker_img)
    show ?thesis
      by (auto simp: b Some Cons.IH split: sum.splits
          dest!: terminated_Inl[OF _ try_cmd_terminated] terminated_Inr[OF _ try_cmd_terminated]
                 terminated_Inl[OF _ run_cpus_terminated] terminated_Inr[OF _ run_cpus_terminated])
  qed
qed

lemma get_ssh_connection_terminated:
  "terminated (snd (get_ssh_connection e timeout elapsed k w)) = terminated w"
proof (induction e timeout elapsed k w rule: get_ssh_connection.induct)
  case (1 e timeout elapsed k w)
  show ?case
    using "1.IH" by (subst get_ssh_connection.simps) (simp add: terminated_sleep)
qed

lemma create_attempt_terminated:
  "terminated (ctl_world (create_attempt e specs cspecs retcount w)) = terminated w"
proof (cases "run_instances e (length (run_calls w)) cspecs")
  case (Created i)
  then show ?thesis by (simp add: create_attempt_def)
next
  case (Raises x)
  then show ?thesis
    by (cases x) (simp_all add: create_attempt_def on_client_error_def sleep_def Let_def)
qed

lemma provision_loop_terminated:
  assumes "provision_loop e specs cspecs retcount w = Some y"
  shows "terminated (res_world y) = terminated w"
  using assms
proof (rule provision_loop.raw_induct
         [rotated 1, where P = "\<lambda>e specs cspecs retcount w y. terminated (res_world y) = terminated w"])
  fix loop e specs cspecs retcount w y
  assume ih: "\<And>e specs cspecs retcount w y.
        loop e specs cspecs retcount w = Some y \<Longrightarrow> terminated (res_world y) = terminated w"
    and eq: "(if retcount < 16
        then case create_attempt e specs cspecs retcount w of
             Continue cspecs' retcount' w' \<Rightarrow> loop e specs cspecs' retcount' w'
             | Break inst w' \<Rightarrow> Some (Inr (inst, w'))
             | Raise x w' \<Rightarrow> Some (Inl (x, w'))
        else Some (Inr (None, w))) = Some y"
  show "terminated (res_world y) = terminated w"
  proof (cases "retcount < 16")
    case False
    with eq show ?thesis by auto
  next
    case True
    show ?thesis
    proof (cases "create_attempt e specs cspecs retcount w")
      case (Continue c r w')
      with eq True have "loop e specs c r w' = Some y" by simp
      from ih[OF this] create_attempt_terminated[of e specs cspecs retcount w] Continue
      show ?thesis by simp
    next
      case (Break i w')
      with eq True create_attempt_terminated[of e specs cspecs retcount w] show ?thesis by auto
    next
      case (Raise x w')
      with eq True create_attempt_terminated[of e specs cspecs retcount w] show ?thesis by auto
    qed
  qed
qed

text \<open>
  After the instance is created, a run that returns has issued exactly one terminate call, and
  a run that raises has issued none.
\<close>

lemma benchmark_instance_returns:
  assumes "benchmark_instance e inst bs ec2_inst w = Inr (r, w')"
  shows "terminated w' = terminated w @ [InstanceId ec2_inst]"
proof -
  obtain ok w2 where c: "get_ssh_connection e ssh_get_conn_timeout 0 0 (sleep 5 w) = (ok, w2)"
    by (cases "get_ssh_connection e ssh_get_conn_timeout 0 0 (sleep 5 w)")
  have t2: "terminated w2 = terminated w"
    using get_ssh_connection_terminated[of e ssh_get_conn_timeout 0 0 "sleep 5 w"] c
    by (simp add: terminated_sleep)
  show ?thesis
    using assms t2
    by (auto simp: benchmark_instance_def Let_def c terminate_instances_def terminated_sleep
        split: option.splits sum.splits bool.splits
        dest!: terminated_Inl[OF _ try_cmd_terminated] terminated_Inr[OF _ try_cmd_terminated]
               terminated_Inl[OF _ run_benchs_terminated] terminated_Inr[OF _ run_benchs_terminated])
qed

lemma benchmark_instance_raises:
  assumes "benchmark_instance e inst bs ec2_inst w = Inl (x, w')"
  shows "terminated w' = terminated w"
proof -
  obtain ok w2 where c: "get_ssh_connection e ssh_get_conn_timeout 0 0 (sleep 5 w) = (ok, w2)"
    by (cases "get_ssh_connection e ssh_get_conn_timeout 0 0 (sleep 5 w)")
  have t2: "terminated w2 = terminated w"
    using get_ssh_connection_terminated[of e ssh_get_conn_timeout 0 0 "sleep 5 w"] c
    by (simp add: terminated_sleep)
  show ?thesis
    using assms t2
    by (auto simp: benchmark_instance_def Let_def c terminate_instances_def terminated_sleep
        split: option.splits sum.splits bool.splits
        dest!: terminated_Inl[OF _ try_cmd_terminated] terminated_Inr[OF _ try_cmd_terminated]
               terminated_Inl[OF _ run_benchs_terminated] terminated_Inr[OF _ run_benchs_terminated])
qed

lemma run_benchmarks_raise_no_terminate:
  assumes "run_benchmarks e args w = Some (Inl (x, w'))"
  shows "terminated w' = terminated w"
  using assms
  by (auto simp: run_benchmarks_def split: prod.splits option.splits sum.splits
      dest!: provision_loop_terminated benchmark_instance_raises)

lemma run_benchmarks_return_terminates_once:
  assumes "run_benchmarks e (a, inst, bs) w = Some (Inr (r, w'))"
    and "provision_loop e (build_specs a inst) (build_spotspecs a inst) 0 w = Some (Inr (Some ec2_inst, w1))"
  shows "terminated w' = terminated w @ [InstanceId ec2_inst]"
  using assms provision_loop_terminated[OF assms(2)]
  by (auto simp: run_benchmarks_def dest!: benchmark_instance_returns)

text \<open>
  C1. Once the instance is created, exactly one terminate call should be issued on every
  exit path. When every run of the benchmark command exits with a status other than 0, no
  sample is collected, \<^verbatim>\<open>max\<close> raises ValueError on the empty list, and the exception leaves
  \<^verbatim>\<open>run_benchmarks\<close> with the instance created and no terminate call issued.
\<close>

theorem aggregation_error_leaks_instance:
  "\<exists>w. run_benchmarks env_runs_fail (ami0, t3_xlarge, [(''bench-A'', bench_a)]) world0 =
          Some (Inl (ValueError, w)) \<and>
        run_calls w = [build_spotspecs ami0 t3_xlarge] \<and> terminated w = []"
  by (simp add: run_benchmarks_def provision_loop.simps create_attempt_def benchmark_instance_def
      get_ssh_connection.simps env_runs_fail_def env_ok_def world0_def ssh_get_conn_timeout_def
      sleep_def do_exec_def stop_services_cmd_def docker_pull_cmd_def docker_run_cmd_def
      bench_a_def t3_xlarge_def cpulist_of_def iteration_count_def aggr_f_def
      terminate_instances_def numeral_nat upto.simps Let_def)

text \<open>
  C2 as stated fails. An iteration with exit status 0 and a stdout that is no number puts
  \<open>None\<close> into the input of the aggregation function: a function that returns its first
  sample returns \<open>None\<close>, not the number of the later iteration. And with the default
  aggregation and every iteration exiting with a status other than 0, no row is emitted and
  ValueError leaves the sweep.
\<close>

theorem absent_samples_counterexample:
  "map_option (map benchmark_score)
     (res_value (run_cpus env_mixed m5_2xlarge ''first'' bench_first ''img'' [2] [] world0)) =
     Some [None] \<and>
   run_cpus env_runs_fail t3_xlarge ''bench-A'' bench_a ''img'' [1] [] world0 =
     Inl (ValueError, world0\<lparr>exec_calls := replicate 3 (docker_run_cmd ''img'' ''bench'')\<rparr>)"
  by (simp add: env_mixed_def out_mixed_def env_runs_fail_def env_ok_def world0_def do_exec_def
      docker_run_cmd_def bench_first_def bench_a_def iteration_count_def aggr_f_def numeral_nat
      Let_def)

text \<open>
  C2, amended. For every cpu count of a sweep (with a channel that does not raise), the input
  of the aggregation function is \<open>samples_of\<close> the outcomes of the iterations: the outcomes
  with an exit status other than 0 are left out, and an outcome with exit status 0 whose
  stdout does not parse is in it as \<open>None\<close>. When the function returns a score on that input,
  exactly one row with that score is appended for the cpu count and the sweep goes on.
\<close>

theorem aggregation_input_of_cpu_count:
  assumes "exec_command e = (\<lambda>k c. Inr (out k c))"
    and "aggr_f bd (samples_of e (outcomes out (docker_run_cmd docker_img (bd_cmd bd i))
                                   (length (exec_calls w)) (iteration_count bd))) = Inr s"
  shows "run_cpus e inst bid bd docker_img (i # cpulist) results w =
           run_cpus e inst bid bd docker_img cpulist
             (results @ [result_row e inst bid bd docker_img i s (length results)])
             (w\<lparr>exec_calls := exec_calls w @
                  replicate (iteration_count bd) (docker_run_cmd docker_img (bd_cmd bd i))\<rparr>)"
  using assms by (rule run_cpus_step)

theorem aggregation_input_of_cpu_count_witness:
  "samples_of env_mixed (outcomes out_mixed (docker_run_cmd ''img'' (bd_cmd bench_first 2)) 0 3) =
     [None, Some (3 / 2)] \<and>
   run_cpus env_mixed m5_2xlarge ''first'' bench_first ''img'' [2] [] world0 =
     Inr ([result_row env_mixed m5_2xlarge ''first'' bench_first ''img'' 2 None 0],
          world0\<lparr>exec_calls := replicate 3 (docker_run_cmd ''img'' (bd_cmd bench_first 2))\<rparr>)"
proof -
  have ch: "exec_command env_mixed = (\<lambda>k c. Inr (out_mixed k c))"
    by (simp add: env_mixed_def)
  have n: "iteration_count bench_first = 3"
    by (simp add: iteration_count_def bench_first_def)
  have s: "samples_of env_mixed (outcomes out_mixed (docker_run_cmd ''img'' (bd_cmd bench_first 2)) 0 3) =
     [None, Some (3 / 2)]"
    by (simp add: samples_of_def outcomes_def out_mixed_def env_mixed_def env_ok_def numeral_nat)
  have ag: "aggr_f bench_first (samples_of env_mixed (outcomes out_mixed
              (docker_run_cmd ''img'' (bd_cmd bench_first 2)) (length (exec_calls world0))
              (iteration_count bench_first))) = Inr None"
    by (simp add: n s world0_def) (simp add: aggr_f_def bench_first_def)
  from aggregation_input_of_cpu_count[OF ch ag, of m5_2xlarge "''first''" "[]" "[]"] s n
  show ?thesis by (simp add: world0_def)
qed

text \<open>
  C3 as stated fails: a run that exits with a status other than 0 yields no sample at all.
  With \<^verbatim>\<open>cpus=[1,4]\<close>, \<^verbatim>\<open>iterations=2\<close> and \<^verbatim>\<open>len\<close> as the aggregation function on an
  instance with 8 vcpus, a first run that exits with 1 leaves one sample for cpu count 1.
\<close>

theorem failed_run_yields_no_sample_counterexample:
  "map_option (map benchmark_score)
     (res_value (run_cpus env_first_fails m5_2xlarge ''count'' bench_count ''img''
                   (cpulist_of m5_2xlarge bench_count) [] world0)) = Some [Some 1, Some 2]"
  by (simp add: env_first_fails_def env_ok_def world0_def do_exec_def docker_run_cmd_def
      bench_count_def cpulist_of_def iteration_count_def aggr_f_def numeral_nat Let_def)

text \<open>
  C3, amended. With a channel that does not raise, each of the \<open>iterations\<close> runs of a cpu
  count (3 by default) yields exactly one sample when its exit status is 0 (the number that
  its stdout parses to, or \<open>None\<close>) and none otherwise: the samples of a cpu count are
  \<open>samples_of\<close> its \<open>iterations\<close> outcomes, as many as the outcomes with exit status 0. And
  when the aggregation function returns on the samples of every cpu count of the sweep, the
  sweep appends exactly one row for each cpu count, in order, after \<open>iterations\<close> runs for
  each, and the score of a row is what the function returns on the samples of its cpu count.
\<close>

theorem sweep_rows_and_sample_counts:
  assumes "exec_command e = (\<lambda>k c. Inr (out k c))"
  shows "run_iterations e c n [] w =
           Inr (samples_of e (outcomes out c (length (exec_calls w)) n),
                w\<lparr>exec_calls := exec_calls w @ replicate n c\<rparr>) \<and>
         length (outcomes out c (length (exec_calls w)) n) = n \<and>
         length (samples_of e (outcomes out c (length (exec_calls w)) n)) =
           zero_exits (outcomes out c (length (exec_calls w)) n) \<and>
         (aggregation_returns e bd (sweep_outcomes out docker_img bd (length (exec_calls w)) cpulist) \<longrightarrow>
          (\<exists>rows w'.
             run_cpus e inst bid bd docker_img cpulist results w = Inr (results @ rows, w') \<and>
             map benchmark_cpus rows = cpulist \<and>
             map (\<lambda>r. Inr (benchmark_score r)) rows =
               map (\<lambda>rs. aggr_f bd (samples_of e rs))
                 (sweep_outcomes out docker_img bd (length (exec_calls w)) cpulist) \<and>
             map length (sweep_outcomes out docker_img bd (length (exec_calls w)) cpulist) =
               replicate (length cpulist) (iteration_count bd) \<and>
             map (\<lambda>rs. length (samples_of e rs))
                 (sweep_outcomes out docker_img bd (length (exec_calls w)) cpulist) =
               map zero_exits (sweep_outcomes out docker_img bd (length (exec_calls w)) cpulist) \<and>
             exec_calls w' = exec_calls w @
               concat (map (\<lambda>i. replicate (iteration_count bd)
                                    (docker_run_cmd docker_img (bd_cmd bd i))) cpulist)))"
proof -
  have a: "run_iterations e c n [] w =
           Inr (samples_of e (outcomes out c (length (exec_calls w)) n),
                w\<lparr>exec_calls := exec_calls w @ replicate n c\<rparr>)"
    using run_iterations_samples[OF assms, of c n "[]" w] by simp
  have b: "length (outcomes out c (length (exec_calls w)) n) = n"
    by (simp add: outcomes_def)
  show ?thesis
    using a b sweep_rows[OF assms, of bd docker_img w cpulist inst bid results]
    by (simp add: sweep_outcomes_lengths length_samples_of)
qed

text \<open>
  The example of the specification, with the default \<^verbatim>\<open>max\<close>: \<^verbatim>\<open>cpus=[1,4]\<close> and
  \<^verbatim>\<open>iterations=2\<close> on 8 vcpus, every run exiting with 0 and printing a number, give two
  rows, for the cpu counts 1 and 4, each from two samples.
\<close>

theorem sweep_rows_and_sample_counts_witness:
  "map_option (map benchmark_cpus)
     (res_value (run_cpus env_ok m5_2xlarge ''sweep'' bench_sweep ''img''
                   (cpulist_of m5_2xlarge bench_sweep) [] world0)) = Some [1, 4] \<and>
   map_option (map benchmark_score)
     (res_value (run_cpus env_ok m5_2xlarge ''sweep'' bench_sweep ''img''
                   (cpulist_of m5_2xlarge bench_sweep) [] world0)) = Some [Some (3 / 2), Some (3 / 2)] \<and>
   map (\<lambda>rs. length (samples_of env_ok rs))
     (sweep_outcomes (\<lambda>k c. (0, ''1.5'', [])) ''img'' bench_sweep 0
        (cpulist_of m5_2xlarge bench_sweep)) = [2, 2]"
proof -
  have ch: "exec_command env_ok = (\<lambda>k c. Inr ((0, ''1.5'', [])))"
    by (simp add: env_ok_def)
  have cl: "cpulist_of m5_2xlarge bench_sweep = [1, 4]"
    by (simp add: cpulist_of_def bench_sweep_def)
  have n: "iteration_count bench_sweep = 2"
    by (simp add: iteration_count_def bench_sweep_def)
  have l0: "length (exec_calls world0) = 0" by (simp add: world0_def)
  have sm: "map (samples_of env_ok)
      (sweep_outcomes (\<lambda>k c. (0, ''1.5'', [])) ''img'' bench_sweep 0 [1, 4]) =
      [[Some (3 / 2), Some (3 / 2)], [Some (3 / 2), Some (3 / 2)]]"
    by (simp add: n outcomes_def samples_of_def env_ok_def numeral_nat)
  have ag: "map (\<lambda>rs. aggr_f bench_sweep (samples_of env_ok rs))
      (sweep_outcomes (\<lambda>k c. (0, ''1.5'', [])) ''img'' bench_sweep 0 [1, 4]) =
      [Inr (Some (3 / 2)), Inr (Some (3 / 2))]"
    using sm by (simp add: aggr_f_def bench_sweep_def)
  have ret: "aggregation_returns env_ok bench_sweep
      (sweep_outcomes (\<lambda>k c. (0, ''1.5'', [])) ''img'' bench_sweep (length (exec_calls world0))
         (cpulist_of m5_2xlarge bench_sweep))"
    using ag by (simp add: aggregation_returns_def cl l0)
  from sweep_rows_and_sample_counts[OF ch, of "''x''" 0 world0 bench_sweep "''img''"
         "cpulist_of m5_2xlarge bench_sweep" m5_2xlarge "''sweep''" "[]"] ret
  obtain rows w' where
    r: "run_cpus env_ok m5_2xlarge ''sweep'' bench_sweep ''img''
          (cpulist_of m5_2xlarge bench_sweep) [] world0 = Inr (rows, w')"
    and c: "map benchmark_cpus rows = cpulist_of m5_2xlarge bench_sweep"
    and s: "map (\<lambda>r. Inr (benchmark_score r)) rows =
             map (\<lambda>rs. aggr_f bench_sweep (samples_of env_ok rs))
               (sweep_outcomes (\<lambda>k c. (0, ''1.5'', [])) ''img'' bench_sweep (length (exec_calls world0))
                  (cpulist_of m5_2xlarge bench_sweep))"
    by auto
  from s ag have "map (\<lambda>r. Inr (benchmark_score r) :: exn + sample) rows =
      map Inr [Some (3 / 2), Some (3 / 2)]"
    by (simp add: cl l0)
  then have sc: "map benchmark_score rows = [Some (3 / 2), Some (3 / 2)]"
    by (auto simp: map_eq_Cons_conv)
  have ln: "map (\<lambda>rs. length (samples_of env_ok rs))
     (sweep_outcomes (\<lambda>k c. (0, ''1.5'', [])) ''img'' bench_sweep 0 [1, 4]) = [2, 2]"
    using arg_cong[OF sm, of "map length"] by (simp add: comp_def)
  show ?thesis using r c sc ln by (simp add: cl)
qed

subsection \<open>Freshness and the coordinator\<close>

lemma drop_duplicates_subset: "set (drop_duplicates key seen xs) \<subseteq> set xs"
  by (induction xs arbitrary: seen) auto

lemma drop_duplicates_keys:
  "set (map key (drop_duplicates key seen xs)) = set (map key xs) - set seen"
  by (induction xs arbitrary: seen) auto

lemma drop_duplicates_distinct: "distinct (map key (drop_duplicates key seen xs))"
proof (induction xs arbitrary: seen)
  case Nil
  show ?case by simp
next
  case (Cons x xs)
  have "key x \<notin> set (map key (drop_duplicates key (key x # seen) xs))"
    by (simp only: drop_duplicates_keys) simp
  then show ?case using Cons.IH by simp
qed

lemma drop_duplicates_set_id: "set (drop_duplicates (\<lambda>r. r) [] xs) = set xs"
  using drop_duplicates_keys[of "\<lambda>r. r" "[]" xs] by simp

lemma pop_rows_keys:
  "map fst (pop_rows now expire rows d) =
     filter (\<lambda>k. \<not> (\<exists>row \<in> set rows. fst (snd row) = k \<and> td_seconds (now - snd (snd row)) < expire))
       (map fst d)"
proof (induction rows arbitrary: d)
  case Nil
  show ?case by simp
next
  case (Cons row rows)
  have f: "map fst (dict_pop k d) = filter (\<lambda>k'. k' \<noteq> k) (map fst d)" for k
    by (simp add: dict_pop_def filter_map comp_def)
  show ?case
    by (auto simp: Cons.IH f not_le intro!: filter_cong)
qed

lemma get_benchmarks_to_run_keys:
  "map fst (get_benchmarks_to_run benchmarks now inst perf_df expire) =
     filter (\<lambda>k. \<not> (\<exists>r \<in> set perf_df. row_instanceType r = instanceType inst \<and> benchmark_id r = k \<and>
                        td_seconds (now - date r) < expire))
       (map fst benchmarks)"
  unfolding get_benchmarks_to_run_def pop_rows_keys perf_rows_def drop_duplicates_set_id
  by (rule filter_cong) auto

lemma int_div_less_iff:
  fixes a m e :: int
  assumes "0 < m"
  shows "a div m < e \<longleftrightarrow> a < e * m"
proof
  assume "a div m < e"
  then have "a div m + 1 \<le> e" by simp
  then have "(a div m + 1) * m \<le> e * m" using assms by (simp add: mult_right_mono)
  moreover have "(a div m + 1) * m = (a div m) * m + m" by (simp add: algebra_simps)
  moreover have "a = (a div m) * m + a mod m" by simp
  moreover have "a mod m < m" using assms by simp
  ultimately show "a < e * m" by linarith
next
  assume l: "a < e * m"
  have "a = (a div m) * m + a mod m" by simp
  moreover have "0 \<le> a mod m" using assms by simp
  ultimately have "(a div m) * m \<le> a" by linarith
  with l have "(a div m) * m < e * m" by simp
  then show "a div m < e" using assms by (simp add: mult_less_cancel_right_pos)
qed

text \<open>
  For an age between 0 and one day the seconds field is the age in whole seconds, and
  the test of \<^verbatim>\<open>get_benchmarks_to_run\<close> compares the age with the window.
\<close>

lemma td_seconds_within_a_day:
  assumes "0 \<le> delta" and "delta < 86400 * 1000000"
  shows "td_seconds delta < expire \<longleftrightarrow> delta < expire * 1000000"
proof -
  have "delta div 1000000 < 86400" using assms by simp
  moreover have "0 \<le> delta div 1000000" using assms by simp
  ultimately have "td_seconds delta = delta div 1000000" by (simp add: td_seconds_def)
  then show ?thesis by (simp add: int_div_less_iff)
qed

text \<open>
  The example of the specification: a result that is 10 minutes old removes the benchmark
  with a window of 3600 seconds and leaves it with a window of 60 seconds.
\<close>

lemma freshness_example:
  "get_benchmarks_to_run [(''bench-A'', bench_a)] now0 c5_large [result_aged ''c5.large'' 600000000] 3600 = [] \<and>
   get_benchmarks_to_run [(''bench-A'', bench_a)] now0 c5_large [result_aged ''c5.large'' 600000000] 60 =
     [(''bench-A'', bench_a)]"
  by (simp add: get_benchmarks_to_run_def perf_rows_def result_aged_def c5_large_def now0_def
      td_seconds_def dict_pop_def)

text \<open>
  C7. A benchmark should be left out exactly when an earlier result of it on the instance
  type is younger than the window. A result of \<open>bench-A\<close> on c5.large that is one day and
  ten seconds old is older than a window of 3600 seconds, but its \<^verbatim>\<open>timedelta.seconds\<close>
  is 10, and \<^verbatim>\<open>get_benchmarks_to_run\<close> leaves the benchmark out.
\<close>

theorem stale_result_treated_as_fresh:
  "now0 - date (result_aged ''c5.large'' 86410000000) = 86410 * 1000000 \<and>
   get_benchmarks_to_run [(''bench-A'', bench_a)] now0 c5_large
     [result_aged ''c5.large'' 86410000000] 3600 = []"
  by (simp add: get_benchmarks_to_run_def perf_rows_def result_aged_def c5_large_def now0_def
      td_seconds_def dict_pop_def)

lemma collect_bench_args_eq:
  "collect_bench_args latest_ami benchmarks now perf_df update expire xs =
     map (\<lambda>inst. (latest_ami (cpu_arch inst), inst, select_benchmarks benchmarks now perf_df update expire inst))
       (filter (\<lambda>inst. select_benchmarks benchmarks now perf_df update expire inst \<noteq> [] \<and>
                        instanceType inst = ''t3.xlarge'') xs)"
  by (induction xs) (simp_all add: Let_def)

lemma select_benchmarks_type:
  "instanceType r = instanceType r' \<Longrightarrow>
     select_benchmarks benchmarks now perf_df update expire r =
     select_benchmarks benchmarks now perf_df update expire r'"
  by (simp add: select_benchmarks_def get_benchmarks_to_run_def perf_rows_def split: option.splits)

text \<open>
  C8 as stated fails: an on-demand offer of c5.large with a benchmark to run gets no pipeline,
  and the coordinator returns the empty result although a pipeline for it would give rows.
\<close>

theorem other_instance_types_skipped_counterexample:
  "bench_args (\<lambda>arch. ami0) [(''bench-A'', bench_a)] now0 [c5_large] None False 0 = [] \<and>
   get_ec2_performance (\<lambda>t. env_ok) (\<lambda>arch. ami0) [(''bench-A'', bench_a)] now0 [c5_large]
     None False 0 = Some (Inr [])"
  by (simp add: get_ec2_performance_def bench_args_def select_benchmarks_def c5_large_def)

text \<open>The worker pool runs the function on every argument.\<close>

lemma pool_map_all:
  "pool_map f xs = Some (Inr ys) \<Longrightarrow> map f xs = map (\<lambda>y. Some (Inr y)) ys"
  by (induction xs arbitrary: ys) (auto split: option.splits sum.splits)

text \<open>
  C8, amended. The arguments of the pipelines are made for the on-demand offers, the first
  of every instance type, that have a benchmark to run and whose instance type is t3.xlarge,
  each with the benchmarks chosen for it; there is at most one for an instance type; and
  instance type \<open>t\<close> gets one exactly when \<open>t\<close> is t3.xlarge and the input has an on-demand
  offer of it with a benchmark to run. \<^verbatim>\<open>get_ec2_performance\<close> hands all of them, and nothing
  else, to the worker pool, which runs \<^verbatim>\<open>run_benchmarks\<close> on each: with none of them the
  result is empty and no pipeline runs; and when the call returns rows, every one of these
  pipelines has run and returned, and the rows are the merge of what they returned.
\<close>

theorem pipelines_for_t3_xlarge_only:
  "bench_args latest_ami benchmarks now prices_df perf_df update expire =
     map (\<lambda>inst. (latest_ami (cpu_arch inst), inst, select_benchmarks benchmarks now perf_df update expire inst))
       (filter (\<lambda>inst. select_benchmarks benchmarks now perf_df update expire inst \<noteq> [] \<and>
                        instanceType inst = ''t3.xlarge'')
          (drop_duplicates instanceType [] (filter (\<lambda>r. \<not> spot r) prices_df))) \<and>
   distinct (map (\<lambda>a. instanceType (fst (snd a)))
               (bench_args latest_ami benchmarks now prices_df perf_df update expire)) \<and>
   ((\<exists>a \<in> set (bench_args latest_ami benchmarks now prices_df perf_df update expire).
        instanceType (fst (snd a)) = t) \<longleftrightarrow>
    (t = ''t3.xlarge'' \<and>
     (\<exists>r \<in> set prices_df. \<not> spot r \<and> instanceType r = t \<and>
        select_benchmarks benchmarks now perf_df update expire r \<noteq> []))) \<and>
   get_ec2_performance envs latest_ami benchmarks now prices_df perf_df update expire =
     (if bench_args latest_ami benchmarks now prices_df perf_df update expire = [] then Some (Inr [])
      else (case pool_map (\<lambda>a. pipeline (envs (instanceType (fst (snd a)))) a)
                   (bench_args latest_ami benchmarks now prices_df perf_df update expire) of
              None \<Rightarrow> None
            | Some (Inl x) \<Rightarrow> Some (Inl x)
            | Some (Inr results) \<Rightarrow> Some (pd_concat results))) \<and>
   (bench_args latest_ami benchmarks now prices_df perf_df update expire \<noteq> [] \<and>
    get_ec2_performance envs latest_ami benchmarks now prices_df perf_df update expire =
      Some (Inr rows) \<longrightarrow>
    (\<exists>results.
       map (\<lambda>a. pipeline (envs (instanceType (fst (snd a)))) a)
         (bench_args latest_ami benchmarks now prices_df perf_df update expire) =
         map (\<lambda>r. Some (Inr r)) results \<and>
       pd_concat results = Inr rows))"
proof -
  let ?sel = "select_benchmarks benchmarks now perf_df update expire"
  let ?dd = "drop_duplicates instanceType [] (filter (\<lambda>r. \<not> spot r) prices_df)"
  let ?P = "\<lambda>inst. ?sel inst \<noteq> [] \<and> instanceType inst = ''t3.xlarge''"
  have eq: "bench_args latest_ami benchmarks now prices_df perf_df update expire =
     map (\<lambda>inst. (latest_ami (cpu_arch inst), inst, ?sel inst)) (filter ?P ?dd)"
    by (simp add: bench_args_def collect_bench_args_eq)
  have types: "map (\<lambda>a. instanceType (fst (snd a)))
      (bench_args latest_ami benchmarks now prices_df perf_df update expire) =
      map instanceType (filter ?P ?dd)"
    by (simp add: eq comp_def)
  have d: "distinct (map instanceType (filter ?P ?dd))"
    by (rule distinct_map_filter) (rule drop_duplicates_distinct)
  have iff: "(\<exists>a \<in> set (bench_args latest_ami benchmarks now prices_df perf_df update expire).
        instanceType (fst (snd a)) = t) \<longleftrightarrow>
    (t = ''t3.xlarge'' \<and> (\<exists>r \<in> set prices_df. \<not> spot r \<and> instanceType r = t \<and> ?sel r \<noteq> []))"
  proof
    assume "\<exists>a \<in> set (bench_args latest_ami benchmarks now prices_df perf_df update expire).
        instanceType (fst (snd a)) = t"
    then obtain inst where i: "inst \<in> set ?dd" "?P inst" "instanceType inst = t"
      by (auto simp: eq)
    from i(1) have "inst \<in> set (filter (\<lambda>r. \<not> spot r) prices_df)"
      using drop_duplicates_subset[of instanceType "[]" "filter (\<lambda>r. \<not> spot r) prices_df"] by (rule_tac subsetD)
    with i show "t = ''t3.xlarge'' \<and> (\<exists>r \<in> set prices_df. \<not> spot r \<and> instanceType r = t \<and> ?sel r \<noteq> [])"
      by auto
  next
    assume r: "t = ''t3.xlarge'' \<and> (\<exists>r \<in> set prices_df. \<not> spot r \<and> instanceType r = t \<and> ?sel r \<noteq> [])"
    then obtain r where r': "r \<in> set prices_df" "\<not> spot r" "instanceType r = t" "?sel r \<noteq> []"
      by blast
    then have "t \<in> set (map instanceType (filter (\<lambda>r. \<not> spot r) prices_df))" by force
    then have "t \<in> set (map instanceType ?dd)"
      by (simp only: drop_duplicates_keys) simp
    then obtain inst where i: "inst \<in> set ?dd" "instanceType inst = t" by auto
    have "?sel inst = ?sel r" using i(2) r'(3) by (simp add: select_benchmarks_type)
    with i r r' have "inst \<in> set (filter ?P ?dd)" by simp
    then show "\<exists>a \<in> set (bench_args latest_ami benchmarks now prices_df perf_df update expire).
        instanceType (fst (snd a)) = t"
      using i(2) by (auto simp: eq)
  qed
  have d2: "distinct (map (\<lambda>a. instanceType (fst (snd a)))
               (bench_args latest_ami benchmarks now prices_df perf_df update expire))"
    unfolding types by (rule d)
  let ?args = "bench_args latest_ami benchmarks now prices_df perf_df update expire"
  let ?run = "\<lambda>a. pipeline (envs (instanceType (fst (snd a)))) a"
  have disp: "get_ec2_performance envs latest_ami benchmarks now prices_df perf_df update expire =
     (if ?args = [] then Some (Inr [])
      else (case pool_map ?run ?args of
              None \<Rightarrow> None
            | Some (Inl x) \<Rightarrow> Some (Inl x)
            | Some (Inr results) \<Rightarrow> Some (pd_concat results)))"
    by (simp add: get_ec2_performance_def Let_def)
  have ran: "?args \<noteq> [] \<and>
      get_ec2_performance envs latest_ami benchmarks now prices_df perf_df update expire =
        Some (Inr rows) \<longrightarrow>
      (\<exists>results. map ?run ?args = map (\<lambda>r. Some (Inr r)) results \<and> pd_concat results = Inr rows)"
  proof
    assume a: "?args \<noteq> [] \<and>
      get_ec2_performance envs latest_ami benchmarks now prices_df perf_df update expire =
        Some (Inr rows)"
    then obtain results where pm: "pool_map ?run ?args = Some (Inr results)"
      and pc: "pd_concat results = Inr rows"
      unfolding disp by (auto split: option.splits sum.splits)
    from pool_map_all[OF pm] pc
    show "\<exists>results. map ?run ?args = map (\<lambda>r. Some (Inr r)) results \<and> pd_concat results = Inr rows"
      by blast
  qed
  show ?thesis by (intro conjI eq d2 iff disp ran)
qed

theorem pipelines_for_t3_xlarge_only_witness:
  "bench_args (\<lambda>arch. ami0) [(''bench-A'', bench_a)] now0 offers0 None False 0 =
     [(ami0, t3_xlarge, [(''bench-A'', bench_a)])] \<and>
   map_option (map_sum id (map benchmark_cpus))
     (get_ec2_performance (\<lambda>t. env_ok) (\<lambda>arch. ami0) [(''bench-A'', bench_a)] now0 offers0
        None False 0) = Some (Inr [1, 2, 3, 4])"
proof -
  let ?B = "[(''bench-A'', bench_a)]"
  have sel: "select_benchmarks ?B now0 None False 0 = (\<lambda>inst. ?B)"
    by (simp add: select_benchmarks_def fun_eq_iff)
  note at_offers = pipelines_for_t3_xlarge_only[of "\<lambda>arch. ami0" ?B now0 offers0 None False 0 _ "\<lambda>t. env_ok"]
  from at_offers sel have args: "bench_args (\<lambda>arch. ami0) ?B now0 offers0 None False 0 = [(ami0, t3_xlarge, ?B)]"
    by (simp add: offers0_def t3_xlarge_def c5_large_def)
  have "\<exists>rows. pipeline env_ok (ami0, t3_xlarge, ?B) = Some (Inr (Some rows)) \<and>
          map benchmark_cpus rows = [1, 2, 3, 4]"
    by (simp add: pipeline_def run_benchmarks_def provision_loop.simps create_attempt_def
        benchmark_instance_def get_ssh_connection.simps env_ok_def world0_def
        ssh_get_conn_timeout_def sleep_def do_exec_def bench_a_def t3_xlarge_def cpulist_of_def
        iteration_count_def aggr_f_def terminate_instances_def numeral_nat upto.simps Let_def)
  then obtain rows where p: "pipeline env_ok (ami0, t3_xlarge, ?B) = Some (Inr (Some rows))"
    and c: "map benchmark_cpus rows = [1, 2, 3, 4]"
    by (elim exE conjE)
  from at_offers have "get_ec2_performance (\<lambda>t. env_ok) (\<lambda>arch. ami0) ?B now0 offers0 None False 0 =
     (if bench_args (\<lambda>arch. ami0) ?B now0 offers0 None False 0 = [] then Some (Inr [])
      else (case pool_map (\<lambda>a. pipeline env_ok a)
                   (bench_args (\<lambda>arch. ami0) ?B now0 offers0 None False 0) of
              None \<Rightarrow> None
            | Some (Inl x) \<Rightarrow> Some (Inl x)
            | Some (Inr results) \<Rightarrow> Some (pd_concat results)))"
    by blast
  then have "get_ec2_performance (\<lambda>t. env_ok) (\<lambda>arch. ami0) ?B now0 offers0 None False 0 =
      Some (Inr rows)"
    by (simp add: args p pd_concat_def List.map_filter_simps)
  with args c show ?thesis by simp
qed

text \<open>
  The merge drops the \<^verbatim>\<open>None\<close>s when some pipeline returned rows, and with no pipeline at
  all the result is empty.
\<close>

lemma pd_concat_frames:
  "List.map_filter (\<lambda>x. x) objs \<noteq> [] \<Longrightarrow> pd_concat objs = Inr (concat (List.map_filter (\<lambda>x. x) objs))"
  by (simp add: pd_concat_def split: list.splits)

lemma no_eligible_offers_empty:
  "bench_args latest_ami benchmarks now prices_df perf_df update expire = [] \<Longrightarrow>
   get_ec2_performance envs latest_ami benchmarks now prices_df perf_df update expire = Some (Inr [])"
  by (simp add: get_ec2_performance_def)

text \<open>
  C9. The merge should return the rows of the pipelines that returned some, whatever the
  others did, also when all of them fail. With one eligible offer whose provisioning fails
  (a missing parameter), the only pipeline returns \<^verbatim>\<open>None\<close>, \<^verbatim>\<open>pandas.concat\<close> is
  given \<^verbatim>\<open>None\<close>s only and raises ValueError, and so does \<^verbatim>\<open>get_ec2_performance\<close>.
\<close>

theorem all_pipelines_failing_raises:
  "get_ec2_performance (\<lambda>t. env_error ''MissingParameter'') (\<lambda>arch. ami0) [(''bench-A'', bench_a)]
     now0 [t3_xlarge] None False 0 = Some (Inl ValueError)"
  by (simp add: get_ec2_performance_def bench_args_def select_benchmarks_def t3_xlarge_def
      pipeline_def run_benchmarks_def provision_loop.simps create_attempt_def on_client_error_def
      env_error_def env_ok_def world0_def pd_concat_def List.map_filter_simps Let_def)

subsection \<open>The copy made by \<^verbatim>\<open>get_benchmarks_to_run\<close>\<close>

lemma val_new_mono: "val_new n l v \<Longrightarrow> l \<le> l' \<Longrightarrow> val_new n l' v"
  by (cases v) auto

lemma list_all_val_new_mono:
  "list_all (val_new n l) vs \<Longrightarrow> l \<le> l' \<Longrightarrow> list_all (val_new n l') vs"
  by (auto simp: list_all_iff intro: val_new_mono)

lemma members_rebuild: "set (members (rebuild ob vs)) \<subseteq> set vs"
  by (cases ob) (auto dest: set_zip_rightD)

lemma deepcopy_inv:
  "deepcopy_val n v (h, m) = Some (v', h', m') \<Longrightarrow> copy_inv h0 h m \<Longrightarrow>
     copy_inv h0 h' m' \<and> length h \<le> length h' \<and> dom m \<subseteq> dom m' \<and> val_new (length h0) (length h') v'"
  "deepcopy_vals n vs (h, m) = Some (vs', h', m') \<Longrightarrow> copy_inv h0 h m \<Longrightarrow>
     copy_inv h0 h' m' \<and> length h \<le> length h' \<and> dom m \<subseteq> dom m' \<and>
     list_all (val_new (length h0) (length h')) vs'"
proof (induction n v "(h, m)" and n vs "(h, m)" arbitrary: h m v' h' m' and h m vs' h' m'
       rule: deepcopy_val_deepcopy_vals.induct)
  case (1 n a)
  then show ?case by auto
next
  case (2 n a h m)
  show ?case
  proof (cases "m a")
    case (Some a')
    with "2.prems" show ?thesis by (auto simp: copy_inv_def)
  next
    case None
    with "2.prems"(1) obtain n' where n: "n = Suc n'" by (cases n) auto
    from "2.prems"(1) None n have lt: "a < length h" by (auto split: if_splits)
    let ?ph = "rebuild (h ! a) []"
    let ?h1 = "h @ [?ph]"
    let ?m1 = "m(a \<mapsto> length h)"
    from "2.prems"(1) None n lt obtain vs h2 where
      r: "deepcopy_vals n' (members (h ! a)) (?h1, ?m1) = Some (vs, h2, m')"
      and res: "v' = PRef (length h)" "h' = h2[length h := rebuild (h ! a) vs]"
      by (auto simp: Let_def split: option.splits)
    have inv1: "copy_inv h0 ?h1 ?m1"
    proof -
      have "members ?ph = []" by (cases "h ! a") auto
      with "2.prems"(2) show ?thesis
        unfolding copy_inv_def
        by (auto simp: nth_append less_Suc_eq intro: list_all_val_new_mono)
    qed
    from "2.hyps"[OF None n lt refl r inv1]
    have inv2: "copy_inv h0 h2 m'" and len: "length ?h1 \<le> length h2"
      and dm: "dom ?m1 \<subseteq> dom m'" and vn: "list_all (val_new (length h0) (length h2)) vs"
      by auto
    have l0: "length h0 \<le> length h" using "2.prems"(2) by (simp add: copy_inv_def)
    have "copy_inv h0 h' m'"
    proof -
      have "list_all (val_new (length h0) (length h2)) (members (rebuild (h ! a) vs))"
        using vn members_rebuild[of "h ! a" vs] by (auto simp: list_all_iff)
      with inv2 l0 len show ?thesis
        unfolding copy_inv_def res
        by (auto simp: nth_list_update)
    qed
    moreover have "length h \<le> length h'" using len by (simp add: res)
    moreover have "dom m \<subseteq> dom m'" using dm by auto
    moreover have "val_new (length h0) (length h') v'" using l0 len by (simp add: res)
    ultimately show ?thesis by simp
  qed
next
  case (3 n)
  then show ?case by auto
next
  case (4 n v vs h m)
  from "4.prems"(1) obtain v1 h1 m1 vs1 where
    a: "deepcopy_val n v (h, m) = Some (v1, h1, m1)"
    and b: "deepcopy_vals n vs (h1, m1) = Some (vs1, h', m')"
    and res: "vs' = v1 # vs1"
    by (auto split: option.splits)
  from "4.hyps"(1)[OF a "4.prems"(2)]
  have i1: "copy_inv h0 h1 m1" "length h \<le> length h1" "dom m \<subseteq> dom m1" "val_new (length h0) (length h1) v1"
    by auto
  from "4.hyps"(2)[OF a refl b i1(1)]
  have i2: "copy_inv h0 h' m'" "length h1 \<le> length h'" "dom m1 \<subseteq> dom m'"
    "list_all (val_new (length h0) (length h')) vs1"
    by auto
  show ?case using i1 i2 by (auto simp: res intro: val_new_mono)
qed


lemma refs_below: "list_all (\<lambda>a. a < n) (refs_of vs) = list_all (val_below n) vs"
  by (induction vs rule: refs_of.induct) auto

lemma refs_new: "list_all (val_new n l) vs \<Longrightarrow> c \<in> set (refs_of vs) \<Longrightarrow> n \<le> c \<and> c < l"
  by (induction vs rule: refs_of.induct) auto

lemma copy_inv_alloc:
  assumes "copy_inv h0 h m"
  shows "copy_inv h0 (h @ [rebuild ob []]) (m(a \<mapsto> length h))"
proof -
  have "members (rebuild ob []) = []" by (cases ob) auto
  with assms show ?thesis
    unfolding copy_inv_def
    by (auto simp: nth_append less_Suc_eq intro: list_all_val_new_mono)
qed

lemma deepcopy_total:
  assumes closed: "closed_store h0"
  shows
    "copy_inv h0 h m \<Longrightarrow> card ({..<length h0} - dom m) \<le> n \<Longrightarrow> val_below (length h0) v \<Longrightarrow>
       \<exists>r. deepcopy_val n v (h, m) = Some r"
    "copy_inv h0 h m \<Longrightarrow> card ({..<length h0} - dom m) \<le> n \<Longrightarrow>
       list_all (val_below (length h0)) vs \<Longrightarrow> \<exists>r. deepcopy_vals n vs (h, m) = Some r"
proof (induction n v "(h, m)" and n vs "(h, m)" arbitrary: h m and h m
       rule: deepcopy_val_deepcopy_vals.induct)
  case (1 n a)
  show ?case by simp
next
  case (2 n a h m)
  show ?case
  proof (cases "m a")
    case (Some a')
    then show ?thesis by simp
  next
    case None
    from "2.prems"(3) have a0: "a < length h0" by simp
    have fin: "finite ({..<length h0} - dom m)" by simp
    have mem: "a \<in> {..<length h0} - dom m" using a0 None by auto
    then have "card ({..<length h0} - dom m) \<noteq> 0" using fin by auto
    with "2.prems"(2) obtain n' where n: "n = Suc n'" by (cases n) auto
    have l0: "length h0 \<le> length h" and tk: "take (length h0) h = h0"
      using "2.prems"(1) by (simp_all add: copy_inv_def)
    have lt: "a < length h" using a0 l0 by simp
    have inv1: "copy_inv h0 (h @ [rebuild (h ! a) []]) (m(a \<mapsto> length h))"
      by (rule copy_inv_alloc[OF "2.prems"(1)])
    have "{..<length h0} - dom (m(a \<mapsto> length h)) = ({..<length h0} - dom m) - {a}" by auto
    then have c1: "card ({..<length h0} - dom (m(a \<mapsto> length h))) \<le> n'"
      using "2.prems"(2) mem fin n by (simp add: card_Diff_singleton)
    have "h ! a = h0 ! a" using tk a0 by (metis nth_take)
    moreover have "list_all (val_below (length h0)) (members (h0 ! a))"
    proof -
      have "h0 ! a \<in> set h0" using a0 by simp
      with closed have "list_all (\<lambda>a. a < length h0) (refs_of (members (h0 ! a)))"
        unfolding closed_store_def list_all_iff by blast
      then show ?thesis by (simp only: refs_below)
    qed
    ultimately have cl: "list_all (val_below (length h0)) (members (h ! a))" by simp
    from "2.hyps"[OF None n lt refl inv1 c1 cl]
    obtain r where "deepcopy_vals n' (members (h ! a)) (h @ [rebuild (h ! a) []], m(a \<mapsto> length h)) = Some r"
      by blast
    then show ?thesis using None n lt by (cases r) (auto simp: Let_def)
  qed
next
  case (3 n)
  show ?case by simp
next
  case (4 n v vs h m)
  from "4.prems"(3) have v: "val_below (length h0) v" and vs: "list_all (val_below (length h0)) vs"
    by simp_all
  from "4.hyps"(1)[OF "4.prems"(1,2) v] obtain v1 h1 m1 where
    a: "deepcopy_val n v (h, m) = Some (v1, h1, m1)"
    by (metis prod_cases3)
  from deepcopy_inv(1)[OF a "4.prems"(1)]
  have i1: "copy_inv h0 h1 m1" and dm: "dom m \<subseteq> dom m1" by auto
  have "{..<length h0} - dom m1 \<subseteq> {..<length h0} - dom m" using dm by auto
  then have "card ({..<length h0} - dom m1) \<le> card ({..<length h0} - dom m)"
    by (intro card_mono) auto
  with "4.prems"(2) have c1: "card ({..<length h0} - dom m1) \<le> n" by simp
  from "4.hyps"(2)[OF a refl i1 c1 vs] obtain r where
    "deepcopy_vals n vs (h1, m1) = Some r" by blast
  then show ?case using a by (cases r) auto
qed

lemma copy_inv_init: "copy_inv h h Map.empty"
  by (auto simp: copy_inv_def)

lemma deepcopy_val_fresh_ref:
  "deepcopy_val n (PRef a) (h, m) = Some (v', h', m') \<Longrightarrow> m a = None \<Longrightarrow> v' = PRef (length h)"
  by (cases n) (auto simp: Let_def split: if_splits option.splits)

lemma deepcopy_returns:
  assumes "closed_store h" and "g < length h"
  shows "\<exists>h' m. deepcopy (PRef g) h = Some (PRef (length h), h') \<and> copy_inv h h' m \<and>
           length h < length h'"
proof -
  from deepcopy_total(1)[OF assms(1) copy_inv_init, of "length h" "PRef g"] assms(2)
  obtain v' h' m where r: "deepcopy_val (length h) (PRef g) (h, Map.empty) = Some (v', h', m)"
    by auto
  from deepcopy_val_fresh_ref[OF r] have v: "v' = PRef (length h)" by simp
  from deepcopy_inv(1)[OF r copy_inv_init] v
  have "copy_inv h h' m" "length h < length h'" by auto
  with r v show ?thesis by (auto simp: deepcopy_def)
qed


lemma reach_new:
  assumes "copy_inv h0 h m" and "reach h r a" and "length h0 \<le> r"
  shows "length h0 \<le> a"
  using assms(2,3)
proof (induction rule: reach.induct)
  case (reach_self x)
  then show ?case by simp
next
  case (reach_step x b c)
  then have "length h0 \<le> b" by simp
  with assms(1) reach_step.hyps(2)
  have "list_all (val_new (length h0) (length h)) (members (h ! b))"
    by (simp add: copy_inv_def)
  from refs_new[OF this reach_step.hyps(3)] show ?case by simp
qed

lemma reach_old:
  assumes "copy_inv h0 h m" and "closed_store h0" and "reach h g a" and "g < length h0"
  shows "a < length h0"
  using assms(3,4)
proof (induction rule: reach.induct)
  case (reach_self x)
  then show ?case by simp
next
  case (reach_step x b c)
  then have b: "b < length h0" by simp
  have "take (length h0) h = h0" using assms(1) by (simp add: copy_inv_def)
  then have "h ! b = h0 ! b" using b by (metis nth_take)
  moreover have "h0 ! b \<in> set h0" using b by simp
  ultimately have "list_all (\<lambda>a. a < length h0) (refs_of (members (h ! b)))"
    using assms(2) unfolding closed_store_def list_all_iff by auto
  with reach_step.hyps(3) show ?case by (simp add: list_all_iff)
qed

lemma deepcopy_vals_length:
  "deepcopy_vals n vs st = Some (vs', st') \<Longrightarrow> length vs' = length vs"
  by (induction vs arbitrary: st vs' st') (auto split: option.splits)

text \<open>The copy of a dict is a new dict with the keys of the old one.\<close>

lemma deepcopy_dict:
  assumes "closed_store h" and "g < length h" and "h ! g = PDict kvs"
  shows "\<exists>h1 m vs. deepcopy (PRef g) h = Some (PRef (length h), h1) \<and> copy_inv h h1 m \<and>
           length h < length h1 \<and> h1 ! length h = PDict (zip (map fst kvs) vs) \<and>
           length vs = length kvs"
proof -
  from deepcopy_returns[OF assms(1,2)] obtain h1 m where
    d: "deepcopy (PRef g) h = Some (PRef (length h), h1)" and i: "copy_inv h h1 m"
    and l: "length h < length h1"
    by blast
  from d obtain m' where dv: "deepcopy_val (length h) (PRef g) (h, Map.empty) = Some (PRef (length h), h1, m')"
    by (auto simp: deepcopy_def split: option.splits)
  then obtain n' where n: "length h = Suc n'" by (cases "length h") auto
  from dv n assms(2) obtain vs h2 where
    v: "deepcopy_vals n' (members (h ! g)) (h @ [rebuild (h ! g) []], Map.empty(g \<mapsto> length h)) =
          Some (vs, h2, m')"
    and h1: "h1 = h2[length h := rebuild (h ! g) vs]"
    by (auto simp: Let_def split: option.splits)
  have inv: "copy_inv h (h @ [rebuild (h ! g) []]) (Map.empty(g \<mapsto> length h))"
    by (rule copy_inv_alloc[OF copy_inv_init])
  from deepcopy_inv(2)[OF v inv] have len: "length h < length h2" by simp
  have lv: "length vs = length kvs"
    using deepcopy_vals_length[OF v] assms(3) by simp
  have "h1 ! length h = PDict (zip (map fst kvs) vs)"
    using len by (simp add: h1 assms(3))
  with d i l lv show ?thesis by blast
qed

lemma pop_rows_st_dict:
  "h ! r = PDict kvs \<Longrightarrow> r < length h \<Longrightarrow>
     pop_rows_st now expire rows r h = Inr (h[r := PDict (pop_rows now expire rows kvs)])"
proof (induction rows arbitrary: h kvs)
  case Nil
  then have "h[r := PDict kvs] = h" by (metis list_update_id)
  then show ?case by simp
next
  case (Cons row rows)
  show ?case
  proof (cases "td_seconds (now - snd (snd row)) \<ge> expire")
    case True
    then show ?thesis using Cons by simp
  next
    case False
    let ?h1 = "h[r := PDict (dict_pop (fst (snd row)) kvs)]"
    have h1: "store_pop r (fst (snd row)) h = Inr ?h1"
      using Cons.prems by (simp add: store_pop_def)
    have "?h1 ! r = PDict (dict_pop (fst (snd row)) kvs)" "r < length ?h1"
      using Cons.prems by simp_all
    from Cons.IH[OF this] False h1 show ?thesis by simp
  qed
qed

lemma pop_rows_values: "set (map snd (pop_rows now expire rows d)) \<subseteq> set (map snd d)"
proof (induction rows arbitrary: d)
  case Nil
  show ?case by simp
next
  case (Cons row rows)
  have "set (map snd (dict_pop k d)) \<subseteq> set (map snd d)" for k
    by (auto simp: dict_pop_def)
  with Cons.IH show ?case by (simp; blast)
qed

lemma copy_inv_update:
  assumes "copy_inv h0 h m" and "length h0 \<le> r" and "r < length h"
    and sub: "set (members ob) \<subseteq> set (members (h ! r))"
  shows "copy_inv h0 (h[r := ob]) m"
proof -
  let ?h' = "h[r := ob]"
  have old: "\<And>b. length h0 \<le> b \<Longrightarrow> b < length h \<Longrightarrow>
      list_all (val_new (length h0) (length h)) (members (h ! b))"
    using assms(1) by (simp add: copy_inv_def)
  have new: "list_all (val_new (length h0) (length ?h')) (members (?h' ! b))"
    if b: "length h0 \<le> b" "b < length ?h'" for b
  proof (cases "b = r")
    case True
    with b have "list_all (val_new (length h0) (length h)) (members (h ! r))"
      using old by simp
    with sub have "list_all (val_new (length h0) (length h)) (members ob)"
      unfolding list_all_iff by blast
    with True b show ?thesis by simp
  next
    case False
    with b old show ?thesis by simp
  qed
  have "take (length h0) ?h' = h0" "length h0 \<le> length ?h'"
    "\<forall>a a'. m a = Some a' \<longrightarrow> length h0 \<le> a' \<and> a' < length ?h'"
    using assms(1,2) by (simp_all add: copy_inv_def)
  with new show ?thesis unfolding copy_inv_def by blast
qed

text \<open>
  C10. \<^verbatim>\<open>get_benchmarks_to_run\<close> works on a deep copy of the global \<^verbatim>\<open>benchmarks\<close>. On a
  closed store with the global mapping, a dict, at address \<open>g\<close>, the call returns; every
  container of the store before the call, the global mapping among them, is unchanged after
  it; the mapping it returns is a new container; no container reachable from the returned
  mapping is reachable from the global one; and the returned mapping has the keys that the
  function on values leaves of the entries of the global mapping.
\<close>

theorem get_benchmarks_to_run_leaves_global_unchanged:
  assumes "closed_store h" and "g < length h" and "h ! g = PDict kvs"
  shows "\<exists>r h' kvs'. get_benchmarks_to_run_st g now inst perf_df expire h = Some (Inr (r, h')) \<and>
           take (length h) h' = h \<and> h' ! g = PDict kvs \<and>
           length h \<le> r \<and> r < length h' \<and>
           (\<forall>a. reach h' r a \<longrightarrow> length h \<le> a) \<and>
           (\<forall>a. reach h' g a \<longrightarrow> a < length h) \<and>
           h' ! r = PDict kvs' \<and>
           map fst kvs' = map fst (get_benchmarks_to_run kvs now inst perf_df expire)"
proof -
  from deepcopy_dict[OF assms] obtain h1 m vs where
    d: "deepcopy (PRef g) h = Some (PRef (length h), h1)" and i: "copy_inv h h1 m"
    and l: "length h < length h1" and at: "h1 ! length h = PDict (zip (map fst kvs) vs)"
    and lv: "length vs = length kvs"
    by blast
  let ?kvs1 = "zip (map fst kvs) vs"
  let ?kvs' = "pop_rows now expire (perf_rows inst perf_df) ?kvs1"
  let ?h' = "h1[length h := PDict ?kvs']"
  have p: "pop_rows_st now expire (perf_rows inst perf_df) (length h) h1 = Inr ?h'"
    by (rule pop_rows_st_dict[OF at l])
  have r: "get_benchmarks_to_run_st g now inst perf_df expire h = Some (Inr (length h, ?h'))"
    by (simp add: get_benchmarks_to_run_st_def d p)
  have "set (members (PDict ?kvs')) \<subseteq> set (members (h1 ! length h))"
    using pop_rows_values[of now expire "perf_rows inst perf_df" ?kvs1] by (simp add: at)
  from copy_inv_update[OF i _ l this] have i': "copy_inv h ?h' m" by simp
  then have tk: "take (length h) ?h' = h" by (simp add: copy_inv_def)
  then have "?h' ! g = h ! g" using assms(2) by (metis nth_take)
  then have g': "?h' ! g = PDict kvs" by (simp add: assms(3))
  have lt: "length h < length ?h'" using l by simp
  have n: "\<forall>a. reach ?h' (length h) a \<longrightarrow> length h \<le> a"
    using reach_new[OF i'] by blast
  have o: "\<forall>a. reach ?h' g a \<longrightarrow> a < length h"
    using reach_old[OF i' assms(1) _ assms(2)] by blast
  have k1: "map fst ?kvs1 = map fst kvs" using lv by simp
  have k: "map fst ?kvs' = map fst (get_benchmarks_to_run kvs now inst perf_df expire)"
    by (simp only: get_benchmarks_to_run_def pop_rows_keys k1)
  have at': "?h' ! length h = PDict ?kvs'" using l by simp
  show ?thesis
    by (rule exI[of _ "length h"], rule exI[of _ ?h'], rule exI[of _ ?kvs'])
       (use r tk g' lt n o at' k in simp)
qed

theorem get_benchmarks_to_run_leaves_global_unchanged_witness:
  "get_benchmarks_to_run_st 0 now0 c5_large [result_aged ''c5.large'' 600000000] 3600 store0 =
     Some (Inr (5, store0 @
              [PDict [(''bench-B'', PRef 8)],
               PDict [(''images'', PRef 7), (''cmd'', PAtom ''bench'')],
               PDict [(''x86_64'', PAtom ''img'')],
               PDict [(''images'', PRef 7), (''cpus'', PRef 9)],
               PList [PAtom ''1'', PAtom ''4'']])) \<and>
   \<not> reach (store0 @
              [PDict [(''bench-B'', PRef 8)],
               PDict [(''images'', PRef 7), (''cmd'', PAtom ''bench'')],
               PDict [(''x86_64'', PAtom ''img'')],
               PDict [(''images'', PRef 7), (''cpus'', PRef 9)],
               PList [PAtom ''1'', PAtom ''4'']]) 5 2"
proof -
  let ?h = "store0 @
              [PDict [(''bench-B'', PRef 8)],
               PDict [(''images'', PRef 7), (''cmd'', PAtom ''bench'')],
               PDict [(''x86_64'', PAtom ''img'')],
               PDict [(''images'', PRef 7), (''cpus'', PRef 9)],
               PList [PAtom ''1'', PAtom ''4'']]"
  have c: "closed_store store0" by (simp add: store0_def closed_store_def)
  have g: "0 < length store0" by (simp add: store0_def)
  have d: "store0 ! 0 = PDict [(''bench-A'', PRef 1), (''bench-B'', PRef 3)]"
    by (simp add: store0_def)
  have e: "get_benchmarks_to_run_st 0 now0 c5_large [result_aged ''c5.large'' 600000000] 3600 store0 =
     Some (Inr (5, ?h))"
    by code_simp
  from get_benchmarks_to_run_leaves_global_unchanged[OF c g d, of now0 c5_large
         "[result_aged ''c5.large'' 600000000]" 3600]
  obtain r h' where
    "get_benchmarks_to_run_st 0 now0 c5_large [result_aged ''c5.large'' 600000000] 3600 store0 =
       Some (Inr (r, h'))"
    and n: "\<forall>a. reach h' r a \<longrightarrow> length store0 \<le> a"
    by blast
  with e have "\<forall>a. reach ?h 5 a \<longrightarrow> length store0 \<le> a" by simp
  then have "\<not> reach ?h 5 2" by (auto simp: store0_def)
  with e show ?thesis by simp
qed

end
